theory Spec2Isabelle
  imports Complex_Main "HOL-Library.Word" "HOL-Library.Signed_Division" "HOL-Library.Sublist"
begin

unbundle bit_operations_syntax

section \<open>Common data\<close>

text \<open>
  Go's \<open>byte\<close> is an 8-bit word, \<open>uint16\<close> a 16-bit word and \<open>uint\<close> (on the 64-bit
  targets the USB driver is built for) a 64-bit word.  Go's \<open>int\<close> is 64 bits wide and
  signed; its values are modelled as \<open>int\<close>, and \<open>int64\<close> is the wrap-around of a result
  to that range.  It is written where a sum can leave the range: the \<open>bitCount + 7\<close> of
  the \<open>ReadBits\<close> functions.  The other \<open>int\<close> values of the modelled code are lengths
  of buffers that exist and counts below them.  Go's \<open>/\<close> and \<open>%\<close> on \<open>int\<close> truncate
  towards zero: they are \<open>sdiv\<close> and \<open>smod\<close>.  \<open>make([]byte, n)\<close> panics when \<open>n\<close> is
  negative.
\<close>

type_synonym byte = "8 word"

definition int64 :: "int \<Rightarrow> int" where
  "int64 x = (x + 2 ^ 63) mod 2 ^ 64 - 2 ^ 63"

text \<open>
  Go errors.  \<open>ErrNew msg\<close> is \<open>errors.New(msg)\<close>, \<open>ErrWrap msg e\<close> is
  \<open>fmt.Errorf("msg: %w", e)\<close>, \<open>ErrExt k\<close> is an error value handed back by a library
  (libusb, the serial port, the entropy reader), \<open>ErrReadTimeout total blockSize\<close> is
  the formatted timeout error of \<open>truerng.ReadBytes\<close>, \<open>ErrUnexpectedEOF\<close> is what
  \<open>io.ReadFull\<close> reports for a short read, and \<open>ErrCanceled\<close> is \<open>ctx.Err()\<close> of a
  cancelled context.
\<close>

datatype error =
    ErrNew string
  | ErrWrap string error
  | ErrExt nat
  | ErrReadTimeout int int
  | ErrUnexpectedEOF
  | ErrCanceled

text \<open>A call either returns or panics (a Go run-time panic, with its message).\<close>

datatype 'a outcome = Returns 'a | Panics string

section \<open>bbusb: the USB transport as the driver sees it\<close>

datatype ep_direction = EndpointDirectionIn | EndpointDirectionOut

datatype ep_transfer = TransferTypeControl | TransferTypeIsochronous
  | TransferTypeBulk | TransferTypeInterrupt

record endpoint_desc =
  Number :: nat
  Direction :: ep_direction
  TransferType :: ep_transfer
  MaxPacketSize :: int

text \<open>
  What the USB library does for the driver is logged, with its outcome.  \<open>Control inp
  req value index r\<close> is \<open>s.dev.Control\<close> as issued by \<open>control\<close> (\<open>inp\<close> selects the IN or
  OUT request type; the data buffer is always nil), \<open>BulkWrite data r\<close> is \<open>outEp.Write\<close>,
  \<open>BulkRead len data r\<close> is \<open>inEp.Read\<close> on a buffer of \<open>len\<close> bytes that received
  \<open>data\<close>, \<open>Sleep ms\<close> is \<open>time.Sleep\<close>.  \<open>IntfClose\<close>, \<open>CfgClose\<close>, \<open>DevClose\<close> and
  \<open>CtxClose\<close> are the releases of the interface, the configuration, the device handle
  and the USB context.
\<close>

datatype usb_event =
    NewContext
  | OpenDeviceWithVIDPID nat nat
  | SetAutoDetach
  | DevConfig nat
  | CfgInterface nat nat
  | IntfInEndpoint nat
  | IntfOutEndpoint nat
  | Control bool byte "16 word" "16 word" "error option"
  | BulkWrite "byte list" "error option"
  | BulkRead nat "byte list" "error option"
  | Sleep nat
  | IntfClose
  | CfgClose
  | DevClose
  | CtxClose

text \<open>
  The device and the library are the environment: what each call answers.  Transfers
  are answered by position (the \<open>i\<close>-th control transfer, bulk write, bulk read of the
  run), so every behaviour of a transport over one run is some \<open>usb_env\<close>.
\<close>

record usb_env =
  open_res :: "error + bool"
  config_res :: "error option"
  interface_res :: "error + endpoint_desc list"
  in_endpoint_res :: "nat \<Rightarrow> error option"
  out_endpoint_res :: "nat \<Rightarrow> error option"
  ctl_resp :: "nat \<Rightarrow> error option"
  wr_resp :: "nat \<Rightarrow> error option"
  rd_resp :: "nat \<Rightarrow> byte list \<times> error option"

text \<open>
  The world: the log, the number of transfers of each kind made so far, and which of
  the four objects of the library (context, device handle, configuration, interface)
  are held at present.
\<close>

record usb_world =
  trace :: "usb_event list"
  n_ctl :: nat
  n_wr :: nat
  n_rd :: nat
  ctx_held :: bool
  dev_held :: bool
  cfg_held :: bool
  intf_held :: bool

definition log_event :: "usb_event \<Rightarrow> usb_world \<Rightarrow> usb_world" where
  "log_event ev w = w\<lparr>trace := trace w @ [ev]\<rparr>"

text \<open>
  The library calls that acquire the four objects: \<open>gousb.NewContext()\<close>,
  \<open>ctx.OpenDeviceWithVIDPID(vid, pid)\<close> (an error, or whether a device was found),
  \<open>dev.Config(n)\<close> and \<open>cfg.Interface(n, alt)\<close>.  An object is held from the call that
  returned it.
\<close>

definition NewContext_call :: "usb_world \<Rightarrow> usb_world" where
  "NewContext_call w = (log_event NewContext w)\<lparr>ctx_held := True\<rparr>"

definition ctx_OpenDeviceWithVIDPID ::
  "usb_env \<Rightarrow> nat \<Rightarrow> nat \<Rightarrow> usb_world \<Rightarrow> (error + bool) \<times> usb_world" where
  "ctx_OpenDeviceWithVIDPID e vid pid w =
     (let w = log_event (OpenDeviceWithVIDPID vid pid) w
      in case open_res e of
           Inr True \<Rightarrow> (Inr True, w\<lparr>dev_held := True\<rparr>)
         | r \<Rightarrow> (r, w))"

definition dev_Config :: "usb_env \<Rightarrow> nat \<Rightarrow> usb_world \<Rightarrow> error option \<times> usb_world" where
  "dev_Config e n w =
     (let w = log_event (DevConfig n) w
      in case config_res e of
           Some err \<Rightarrow> (Some err, w)
         | None \<Rightarrow> (None, w\<lparr>cfg_held := True\<rparr>))"

definition cfg_Interface ::
  "usb_env \<Rightarrow> nat \<Rightarrow> nat \<Rightarrow> usb_world \<Rightarrow> (error + endpoint_desc list) \<times> usb_world" where
  "cfg_Interface e n alt w =
     (let w = log_event (CfgInterface n alt) w
      in case interface_res e of
           Inl err \<Rightarrow> (Inl err, w)
         | Inr eps \<Rightarrow> (Inr eps, w\<lparr>intf_held := True\<rparr>))"

text \<open>
  The \<open>Close\<close> methods of the four objects.  Each returns at once on an object that is
  not held any more; \<open>Config.Close\<close> refuses while an interface of the configuration is
  claimed, and \<open>Device.Close\<close> while a configuration of the device is held.  A release
  that takes place is logged.  The driver ignores what the methods return.
\<close>

definition Interface_Close :: "usb_world \<Rightarrow> usb_world" where
  "Interface_Close w =
     (if intf_held w then (log_event IntfClose w)\<lparr>intf_held := False\<rparr> else w)"

definition Config_Close :: "usb_world \<Rightarrow> usb_world" where
  "Config_Close w =
     (if cfg_held w \<and> \<not> intf_held w then (log_event CfgClose w)\<lparr>cfg_held := False\<rparr> else w)"

definition Device_Close :: "usb_world \<Rightarrow> usb_world" where
  "Device_Close w =
     (if dev_held w \<and> \<not> cfg_held w then (log_event DevClose w)\<lparr>dev_held := False\<rparr> else w)"

definition Context_Close :: "usb_world \<Rightarrow> usb_world" where
  "Context_Close w =
     (if ctx_held w then (log_event CtxClose w)\<lparr>ctx_held := False\<rparr> else w)"

text \<open>
  \<open>s.dev.Control(typ, req, value, index, nil)\<close>: the answer of the device to the next
  control transfer.
\<close>

definition dev_Control ::
  "usb_env \<Rightarrow> bool \<Rightarrow> byte \<Rightarrow> 16 word \<Rightarrow> 16 word \<Rightarrow> usb_world \<Rightarrow> error option \<times> usb_world" where
  "dev_Control e inp req val idx w =
     (let r = ctl_resp e (n_ctl w)
      in (r, w\<lparr>trace := trace w @ [Control inp req val idx r], n_ctl := Suc (n_ctl w)\<rparr>))"

text \<open>\<open>s.outEp.Write(data)\<close>; the driver ignores the byte count it returns.\<close>

definition outEp_Write :: "usb_env \<Rightarrow> byte list \<Rightarrow> usb_world \<Rightarrow> error option \<times> usb_world" where
  "outEp_Write e data w =
     (let r = wr_resp e (n_wr w)
      in (r, w\<lparr>trace := trace w @ [BulkWrite data r], n_wr := Suc (n_wr w)\<rparr>))"

text \<open>
  \<open>s.inEp.Read(buf)\<close>: at most \<open>len(buf)\<close> bytes of the device's answer are stored at
  the front of \<open>buf\<close>, the rest of \<open>buf\<close> keeps its content; the call returns the count,
  the buffer and the error.
\<close>

definition inEp_Read ::
  "usb_env \<Rightarrow> byte list \<Rightarrow> usb_world \<Rightarrow> (int \<times> byte list \<times> error option) \<times> usb_world" where
  "inEp_Read e buf w =
     (let (d, r) = rd_resp e (n_rd w);
          data = take (length buf) d
      in ((int (length data), data @ drop (length data) buf, r),
          w\<lparr>trace := trace w @ [BulkRead (length buf) data r], n_rd := Suc (n_rd w)\<rparr>))"

subsection \<open>Constants\<close>

definition ftdiVendorID :: nat where "ftdiVendorID = 0x0403"
definition bbProductID :: nat where "bbProductID = 0x7840"

definition mpsseNoClkDiv5 :: byte where "mpsseNoClkDiv5 = 0x8A"
definition mpsseNoAdaptiveClk :: byte where "mpsseNoAdaptiveClk = 0x97"
definition mpsseNo3PhaseClk :: byte where "mpsseNo3PhaseClk = 0x8D"
definition mpsseSetDataLow :: byte where "mpsseSetDataLow = 0x80"
definition mpsseSetDataHigh :: byte where "mpsseSetDataHigh = 0x82"
definition mpsseSetClkDivisor :: byte where "mpsseSetClkDivisor = 0x86"
definition mpsseSendImmediate :: byte where "mpsseSendImmediate = 0x87"
definition mpsseDataByteInPosMSB :: byte where "mpsseDataByteInPosMSB = 0x20"

definition ftdiReqReset :: byte where "ftdiReqReset = 0x00"
definition ftdiReqSetFlowCtrl :: byte where "ftdiReqSetFlowCtrl = 0x02"
definition ftdiReqSetEventChar :: byte where "ftdiReqSetEventChar = 0x06"
definition ftdiReqSetErrorChar :: byte where "ftdiReqSetErrorChar = 0x07"
definition ftdiReqSetLatency :: byte where "ftdiReqSetLatency = 0x09"
definition ftdiReqSetBitmode :: byte where "ftdiReqSetBitmode = 0x0B"

definition ftdiResetSIO :: "16 word" where "ftdiResetSIO = 0"
definition ftdiFlowRtsCts :: "16 word" where "ftdiFlowRtsCts = 0x0100"
definition ftdiBitmodeReset :: "16 word" where "ftdiBitmodeReset = 0x0000"
definition ftdiBitmodeMpsse :: "16 word" where "ftdiBitmodeMpsse = 0x0200"

subsection \<open>DeviceSession\<close>

text \<open>
  The pointer fields of \<open>DeviceSession\<close> are modelled by whether they are non-nil;
  the two endpoints by their descriptors.
\<close>

record DeviceSession =
  ctx :: bool
  dev :: bool
  cfg :: bool
  intf :: bool
  inEp :: endpoint_desc
  outEp :: endpoint_desc
  maxPacket :: int

text \<open>\<open>Close\<close> (lines 575-591); the receiver may be nil.\<close>

definition Close :: "DeviceSession option \<Rightarrow> usb_world \<Rightarrow> usb_world" where
  "Close so w =
     (case so of
        None \<Rightarrow> w
      | Some s \<Rightarrow>
          (let w = (if intf s then Interface_Close w else w);
               w = (if cfg s then Config_Close w else w);
               w = (if dev s then Device_Close w else w);
               w = (if ctx s then Context_Close w else w)
           in w))"

subsection \<open>Helpers of the driver\<close>

definition control ::
  "usb_env \<Rightarrow> DeviceSession \<Rightarrow> byte \<Rightarrow> 16 word \<Rightarrow> 16 word \<Rightarrow> bool \<Rightarrow> usb_world
     \<Rightarrow> error option \<times> usb_world" where
  "control e s req val idx inp w = dev_Control e inp req val idx w"

definition ftdiReset :: "usb_env \<Rightarrow> DeviceSession \<Rightarrow> usb_world \<Rightarrow> error option \<times> usb_world" where
  "ftdiReset e s w = control e s ftdiReqReset ftdiResetSIO 1 False w"

definition ftdiSetBitmode ::
  "usb_env \<Rightarrow> DeviceSession \<Rightarrow> 16 word \<Rightarrow> byte \<Rightarrow> usb_world \<Rightarrow> error option \<times> usb_world" where
  "ftdiSetBitmode e s mode msk w = control e s ftdiReqSetBitmode (mode OR ucast msk) 1 False w"

definition ftdiSetLatencyTimer ::
  "usb_env \<Rightarrow> DeviceSession \<Rightarrow> byte \<Rightarrow> usb_world \<Rightarrow> error option \<times> usb_world" where
  "ftdiSetLatencyTimer e s ms w = control e s ftdiReqSetLatency (ucast ms) 1 False w"

definition ftdiSetFlowControl ::
  "usb_env \<Rightarrow> DeviceSession \<Rightarrow> 16 word \<Rightarrow> usb_world \<Rightarrow> error option \<times> usb_world" where
  "ftdiSetFlowControl e s mode w = control e s ftdiReqSetFlowCtrl 0 (mode OR 1) False w"

definition ftdiSetSpecialChars ::
  "usb_env \<Rightarrow> DeviceSession \<Rightarrow> byte \<Rightarrow> bool \<Rightarrow> byte \<Rightarrow> bool \<Rightarrow> usb_world
     \<Rightarrow> error option \<times> usb_world" where
  "ftdiSetSpecialChars e s event evtEnable errc errEnable w =
     (let v = ucast event;
          v = (if evtEnable then v OR 0x0100 else v)
      in case control e s ftdiReqSetEventChar v 1 False w of
           (Some err, w) \<Rightarrow> (Some err, w)
         | (None, w) \<Rightarrow>
             (let v = ucast errc;
                  v = (if errEnable then v OR 0x0100 else v)
              in control e s ftdiReqSetErrorChar v 1 False w))"

text \<open>
  \<open>purgeRead\<close>: at most 10 reads into an 8192-byte buffer, until one returns at most 2
  bytes; read errors are ignored and the result is always nil.
\<close>

fun purge_loop :: "nat \<Rightarrow> usb_env \<Rightarrow> byte list \<Rightarrow> usb_world \<Rightarrow> usb_world" where
  "purge_loop 0 e buf w = w"
| "purge_loop (Suc k) e buf w =
     (case inEp_Read e buf w of
        ((n, buf', r), w') \<Rightarrow> if n \<le> 2 then w' else purge_loop k e buf' w')"

definition purgeRead :: "usb_env \<Rightarrow> DeviceSession \<Rightarrow> usb_world \<Rightarrow> error option \<times> usb_world" where
  "purgeRead e s w = (None, purge_loop 10 e (replicate 8192 0) w)"

text \<open>
  \<open>checkSync\<close>: write the bogus command and the flush marker, then read up to 10
  times into a 512-byte buffer until a read returns exactly 4 bytes with
  \<open>buf[2] = 0xFA\<close> and \<open>buf[3] = cmd\<close>.  A failed write gives false.
\<close>

fun sync_loop :: "nat \<Rightarrow> usb_env \<Rightarrow> byte \<Rightarrow> byte list \<Rightarrow> usb_world \<Rightarrow> bool \<times> usb_world" where
  "sync_loop 0 e cmd buf w = (False, w)"
| "sync_loop (Suc k) e cmd buf w =
     (case inEp_Read e buf w of
        ((n, buf', r), w') \<Rightarrow>
          if n = 4 \<and> buf' ! 2 = 0xFA \<and> buf' ! 3 = cmd then (True, w')
          else sync_loop k e cmd buf' w')"

definition checkSync :: "usb_env \<Rightarrow> DeviceSession \<Rightarrow> byte \<Rightarrow> usb_world \<Rightarrow> bool \<times> usb_world" where
  "checkSync e s cmd w =
     (let msg = [cmd, mpsseSendImmediate]
      in case outEp_Write e msg w of
           (Some err, w) \<Rightarrow> (False, w)
         | (None, w) \<Rightarrow> sync_loop 10 e cmd (replicate 512 0) w)"

definition roundUpToMaxPacket :: "int \<Rightarrow> int \<Rightarrow> int" where
  "roundUpToMaxPacket n mx =
     (if mx \<le> 0 then n
      else if n smod mx = 0 then n
      else (n sdiv mx + 1) * mx)"

subsection \<open>ReadRandom\<close>

text \<open>
  The inner loop of \<open>ReadRandom\<close> (lines 624-644): walk the \<open>m\<close> bytes received in
  \<open>tmp\<close> in strides of \<open>maxPacket\<close>, skipping the first 2 bytes of each stride.  The
  source's \<open>take\<close> is \<open>tk\<close> here.  A slice expression whose bounds are out of order or
  beyond the capacity panics.
\<close>

function walk_chunk ::
  "int \<Rightarrow> byte list \<Rightarrow> int \<Rightarrow> int \<Rightarrow> int \<Rightarrow> byte list \<Rightarrow> int \<Rightarrow> (byte list \<times> int) outcome" where
  "walk_chunk mp tmp m want offset buf got =
     (if offset < m then
        (let remain = m - offset in
         if remain \<le> 2 then Returns (buf, got)
         else
           (let tk = (if remain > mp then mp else remain);
                usable = tk - 2;
                usable = (if usable > want - got then want - got else usable)
            in if (0 \<le> got \<and> got \<le> got + usable \<and> got + usable \<le> int (length buf)) \<and>
                  (0 \<le> offset + 2 \<and> offset + 2 \<le> offset + 2 + usable \<and>
                     offset + 2 + usable \<le> int (length tmp))
               then
                 (let buf = take (nat got) buf @ take (nat usable) (drop (nat (offset + 2)) tmp)
                              @ drop (nat (got + usable)) buf;
                      got = got + usable;
                      offset = offset + tk
                  in if got = want then Returns (buf, got)
                     else walk_chunk mp tmp m want offset buf got)
               else Panics ''slice bounds out of range''))
      else Returns (buf, got))"
  by pat_completeness auto
termination
  by (relation "measure (\<lambda>(mp, tmp, m, want, offset, buf, got). nat (m - offset))")
     (auto simp: Let_def split: if_splits)

text \<open>
  The outer loop (lines 615-645).  It runs until \<open>want\<close> bytes are gathered or a read
  fails, so it may run forever; \<open>fuel\<close> bounds the number of reads and \<open>None\<close> means the
  bound was reached.
\<close>

fun read_loop ::
  "nat \<Rightarrow> usb_env \<Rightarrow> DeviceSession \<Rightarrow> int \<Rightarrow> byte list \<Rightarrow> byte list \<Rightarrow> int \<Rightarrow> usb_world
     \<Rightarrow> ((int \<times> error option \<times> byte list) outcome \<times> usb_world) option" where
  "read_loop 0 e s want tmp buf got w =
     (if got < want then None else Some (Returns (got, None, buf), w))"
| "read_loop (Suc k) e s want tmp buf got w =
     (if got < want then
        (case inEp_Read e tmp w of
           ((m, tmp', r), w') \<Rightarrow>
             (case r of
                Some err \<Rightarrow> Some (Returns (got, Some err, buf), w')
              | None \<Rightarrow>
                  if m \<le> 2 then read_loop k e s want tmp' buf got w'
                  else
                    (case walk_chunk (maxPacket s) tmp' m want 0 buf got of
                       Panics msg \<Rightarrow> Some (Panics msg, w')
                     | Returns (buf', got') \<Rightarrow> read_loop k e s want tmp' buf' got' w')))
      else Some (Returns (got, None, buf), w))"

text \<open>
  \<open>ReadRandom(ctx, buf)\<close> (lines 595-647) returns the count, the error and the buffer as
  it left it.  The source never looks at \<open>ctx\<close>.  \<open>make\<close> panics on a negative length.
\<close>

definition ReadRandom ::
  "nat \<Rightarrow> usb_env \<Rightarrow> DeviceSession \<Rightarrow> byte list \<Rightarrow> usb_world
     \<Rightarrow> ((int \<times> error option \<times> byte list) outcome \<times> usb_world) option" where
  "ReadRandom fuel e s buf w =
     (if length buf = 0 then Some (Returns (0, None, buf), w)
      else
        (let n = int (length buf);
             cmd = [mpsseDataByteInPosMSB,
                    word_of_int ((n - 1) AND 0xFF),
                    word_of_int (drop_bit 8 (n - 1)),
                    mpsseSendImmediate]
         in case outEp_Write e cmd w of
              (Some err, w) \<Rightarrow> Some (Returns (0, Some err, buf), w)
            | (None, w) \<Rightarrow>
                (let want = n;
                     got = 0;
                     tmplen = roundUpToMaxPacket n (maxPacket s) + maxPacket s
                 in if tmplen < 0 then Some (Panics ''makeslice: len out of range'', w)
                    else read_loop fuel e s want (replicate (nat tmplen) 0) buf got w)))"

subsection \<open>OpenBitBabbler\<close>

text \<open>
  The endpoint loop (lines 473-494) over the interface's endpoint descriptors, in the
  order the range statement visits them.
\<close>

fun find_endpoints ::
  "usb_env \<Rightarrow> endpoint_desc list \<Rightarrow> endpoint_desc option \<Rightarrow> endpoint_desc option \<Rightarrow> usb_world
     \<Rightarrow> (error + endpoint_desc option \<times> endpoint_desc option) \<times> usb_world" where
  "find_endpoints e [] inE outE w = (Inr (inE, outE), w)"
| "find_endpoints e (ep # eps) inE outE w =
     (case (if Direction ep = EndpointDirectionIn \<and> TransferType ep = TransferTypeBulk
            then (case in_endpoint_res e (Number ep) of
                    Some err \<Rightarrow> (Inl err, log_event (IntfInEndpoint (Number ep)) w)
                  | None \<Rightarrow> (Inr (Some ep), log_event (IntfInEndpoint (Number ep)) w))
            else (Inr inE, w)) of
        (Inl err, w) \<Rightarrow> (Inl err, w)
      | (Inr inE, w) \<Rightarrow>
          (case (if Direction ep = EndpointDirectionOut \<and> TransferType ep = TransferTypeBulk
                 then (case out_endpoint_res e (Number ep) of
                         Some err \<Rightarrow> (Inl err, log_event (IntfOutEndpoint (Number ep)) w)
                       | None \<Rightarrow> (Inr (Some ep), log_event (IntfOutEndpoint (Number ep)) w))
                 else (Inr outE, w)) of
             (Inl err, w) \<Rightarrow> (Inl err, w)
           | (Inr outE, w) \<Rightarrow> find_endpoints e eps inE outE w))"

text \<open>
  Lines 440-503 of \<open>OpenBitBabbler\<close>: context, device, configuration, interface and the
  two bulk endpoints; on a failure what was acquired is released on the spot.
\<close>

definition OpenBitBabbler_usb :: "usb_env \<Rightarrow> usb_world \<Rightarrow> (error + DeviceSession) \<times> usb_world" where
  "OpenBitBabbler_usb e w =
     (let w = NewContext_call w
      in case ctx_OpenDeviceWithVIDPID e ftdiVendorID bbProductID w of
           (Inl err, w) \<Rightarrow> (Inl err, Context_Close w)
         | (Inr False, w) \<Rightarrow> (Inl (ErrNew ''BitBabbler device not found''), Context_Close w)
         | (Inr True, w) \<Rightarrow>
             (let w = log_event SetAutoDetach w
              in case dev_Config e 1 w of
                   (Some err, w) \<Rightarrow> (Inl err, Context_Close (Device_Close w))
                 | (None, w) \<Rightarrow>
                     (case cfg_Interface e 0 0 w of
                        (Inl err, w) \<Rightarrow>
                          (Inl err, Context_Close (Device_Close (Config_Close w)))
                      | (Inr eps, w) \<Rightarrow>
                          (case find_endpoints e eps None None w of
                             (Inl err, w) \<Rightarrow>
                               (Inl err, Context_Close (Device_Close
                                  (Config_Close (Interface_Close w))))
                           | (Inr (Some i, Some out), w) \<Rightarrow>
                               (Inr \<lparr>ctx = True, dev = True, cfg = True, intf = True,
                                     inEp = i, outEp = out, maxPacket = MaxPacketSize i\<rparr>, w)
                           | (Inr _, w) \<Rightarrow>
                               (Inl (ErrNew ''bulk endpoints not found''),
                                Context_Close (Device_Close
                                  (Config_Close (Interface_Close w))))))))"

text \<open>
  Lines 505-534: the control transfers of the vendor sequence and the 50 ms pause.
  Every failure closes the session and is returned.
\<close>

definition OpenBitBabbler_controls ::
  "usb_env \<Rightarrow> DeviceSession \<Rightarrow> byte \<Rightarrow> usb_world \<Rightarrow> error option \<times> usb_world" where
  "OpenBitBabbler_controls e s latencyMs w =
     (case ftdiReset e s w of
        (Some err, w) \<Rightarrow> (Some err, Close (Some s) w)
      | (None, w) \<Rightarrow>
     (case purgeRead e s w of
        (Some err, w) \<Rightarrow> (Some err, Close (Some s) w)
      | (None, w) \<Rightarrow>
     (case ftdiSetSpecialChars e s 0 False 0 False w of
        (Some err, w) \<Rightarrow> (Some err, Close (Some s) w)
      | (None, w) \<Rightarrow>
     (case ftdiSetLatencyTimer e s latencyMs w of
        (Some err, w) \<Rightarrow> (Some err, Close (Some s) w)
      | (None, w) \<Rightarrow>
     (case ftdiSetFlowControl e s ftdiFlowRtsCts w of
        (Some err, w) \<Rightarrow> (Some err, Close (Some s) w)
      | (None, w) \<Rightarrow>
     (case ftdiSetBitmode e s ftdiBitmodeReset 0 w of
        (Some err, w) \<Rightarrow> (Some err, Close (Some s) w)
      | (None, w) \<Rightarrow>
     (case ftdiSetBitmode e s ftdiBitmodeMpsse 0 w of
        (Some err, w) \<Rightarrow> (Some err, Close (Some s) w)
      | (None, w) \<Rightarrow> (None, log_event (Sleep 50) w))))))))"

text \<open>
  One pass of the two-stage check, \<open>s.checkSync(0xAA) && s.checkSync(0xAB)\<close>: the second
  operand is evaluated only when the first is true.
\<close>

definition sync_AA_AB :: "usb_env \<Rightarrow> DeviceSession \<Rightarrow> usb_world \<Rightarrow> bool \<times> usb_world" where
  "sync_AA_AB e s w =
     (case checkSync e s 0xAA w of
        (False, w) \<Rightarrow> (False, w)
      | (True, w) \<Rightarrow> checkSync e s 0xAB w)"

text \<open>Lines 537-540: the check, and once more when it failed.\<close>

definition OpenBitBabbler_sync :: "usb_env \<Rightarrow> DeviceSession \<Rightarrow> usb_world \<Rightarrow> bool \<times> usb_world" where
  "OpenBitBabbler_sync e s w =
     (case sync_AA_AB e s w of
        (ok, w) \<Rightarrow> if \<not> ok then sync_AA_AB e s w else (ok, w))"

text \<open>
  \<open>OpenBitBabbler(bitrate, latencyMs)\<close> (lines 432-572) returns the session pointer and
  the error.  The division is Go's unsigned division on \<open>uint\<close>; \<open>bitrate\<close> is not 0
  when it is reached.
\<close>

definition OpenBitBabbler ::
  "usb_env \<Rightarrow> 64 word \<Rightarrow> byte \<Rightarrow> usb_world \<Rightarrow> (DeviceSession option \<times> error option) \<times> usb_world" where
  "OpenBitBabbler e bitrate latencyMs w =
     (let bitrate = (if bitrate = 0 then 2500000 else bitrate);
          latencyMs = (if latencyMs = 0 then 1 else latencyMs)
      in case OpenBitBabbler_usb e w of
           (Inl err, w) \<Rightarrow> ((None, Some err), w)
         | (Inr s, w) \<Rightarrow>
             (case OpenBitBabbler_controls e s latencyMs w of
                (Some err, w) \<Rightarrow> ((None, Some err), w)
              | (None, w) \<Rightarrow>
                  (case OpenBitBabbler_sync e s w of
                     (False, w) \<Rightarrow> ((None, Some (ErrNew ''MPSSE sync failed'')), Close (Some s) w)
                   | (True, w) \<Rightarrow>
                       (let clkDiv = (ucast (30000000 div bitrate - 1) :: 16 word);
                            cmd = [mpsseNoClkDiv5, mpsseNoAdaptiveClk, mpsseNo3PhaseClk,
                                   mpsseSetDataLow, 0x00, 0x0B,
                                   mpsseSetDataHigh, 0x00, 0x00,
                                   mpsseSetClkDivisor,
                                   ucast (clkDiv AND 0xFF), ucast (drop_bit 8 clkDiv),
                                   0x85]
                        in case outEp_Write e cmd w of
                             (Some err, w) \<Rightarrow> ((None, Some err), Close (Some s) w)
                           | (None, w) \<Rightarrow>
                               (let w = log_event (Sleep 30) w;
                                    w = snd (purgeRead e s w)
                                in ((Some s, None), w))))))"

subsection \<open>ReadBitsOnce\<close>

text \<open>
  \<open>buf[len(buf)-1] &= mask\<close>.  Indexing an empty slice at \<open>-1\<close> panics.
\<close>

definition and_last :: "byte list \<Rightarrow> byte \<Rightarrow> byte list outcome" where
  "and_last buf msk =
     (if buf = [] then Panics ''index out of range [-1]''
      else Returns (buf[length buf - 1 := (buf ! (length buf - 1)) AND msk]))"

text \<open>
  \<open>ReadBitsOnce(ctx, bits, bitrate, latencyMs)\<close> (part_002, lines 22-47).  The deferred
  \<open>sess.Close()\<close> runs on every way out once the session is open, also when
  \<open>ReadRandom\<close> panics or \<open>make\<close> does (\<open>bits + 7\<close> wrapped around to a negative
  count).  \<open>0xFF >> excess\<close> is a shift of a byte.
\<close>

definition ReadBitsOnce ::
  "nat \<Rightarrow> usb_env \<Rightarrow> int \<Rightarrow> 64 word \<Rightarrow> byte \<Rightarrow> usb_world
     \<Rightarrow> ((error + byte list) outcome \<times> usb_world) option" where
  "ReadBitsOnce fuel e bits bitrate latencyMs w =
     (if bits \<le> 0 then Some (Returns (Inl (ErrNew ''bits must be > 0'')), w)
      else
        (case OpenBitBabbler e bitrate latencyMs w of
           ((sess, Some err), w) \<Rightarrow> Some (Returns (Inl err), w)
         | ((None, None), w) \<Rightarrow> Some (Panics ''nil pointer dereference'', w)
         | ((Some s, None), w) \<Rightarrow>
             (let numBytes = int64 (bits + 7) sdiv 8;
                  buf = replicate (nat numBytes) 0
              in if numBytes < 0
                 then Some (Panics ''makeslice: len out of range'', Close (Some s) w)
                 else
                 case ReadRandom fuel e s buf w of
                   None \<Rightarrow> None
                 | Some (Panics msg, w) \<Rightarrow> Some (Panics msg, Close (Some s) w)
                 | Some (Returns (got, Some err, buf), w) \<Rightarrow>
                     Some (Returns (Inl err), Close (Some s) w)
                 | Some (Returns (got, None, buf), w) \<Rightarrow>
                     (let buf = (if got < numBytes then take (nat got) buf else buf)
                      in if bits smod 8 \<noteq> 0 \<and> length buf > 0
                         then
                           (let excess = 8 - (bits smod 8)
                            in case and_last buf (drop_bit (nat excess) 0xFF) of
                                 Panics msg \<Rightarrow> Some (Panics msg, Close (Some s) w)
                               | Returns buf \<Rightarrow> Some (Returns (Inr buf), Close (Some s) w))
                         else Some (Returns (Inr buf), Close (Some s) w)))))"

section \<open>pseudorng\<close>

text \<open>
  \<open>crypto/rand.Read(buf)\<close> is \<open>io.ReadFull\<close> on the system's entropy reader: it fills
  the whole buffer or fails.  The environment says, for the \<open>i\<close>-th call, whether the
  reader fails and otherwise which bytes it can supply.
\<close>

datatype rand_event = CrandRead nat

record rand_env =
  crand :: "nat \<Rightarrow> error + byte list"

record rand_world =
  rtrace :: "rand_event list"
  n_crand :: nat

definition crand_Read ::
  "rand_env \<Rightarrow> byte list \<Rightarrow> rand_world \<Rightarrow> (byte list \<times> error option) \<times> rand_world" where
  "crand_Read e buf w =
     (let w' = w\<lparr>rtrace := rtrace w @ [CrandRead (length buf)], n_crand := Suc (n_crand w)\<rparr>
      in case crand e (n_crand w) of
           Inl err \<Rightarrow> ((buf, Some err), w')
         | Inr bs \<Rightarrow>
             if length bs < length buf
             then ((bs @ drop (length bs) buf, Some ErrUnexpectedEOF), w')
             else ((take (length buf) bs, None), w'))"

text \<open>
  \<open>pseudorng.ReadBits(bitCount)\<close> (pseudorng.go, lines 17-34).  \<open>bitCount + 7\<close> wraps
  around for the seven largest values of \<open>bitCount\<close>, and \<open>make\<close> panics on the negative
  count that results.  \<open>byte(0xFF << extraBits)\<close> is a shift of a byte.
\<close>

definition pseudorng_ReadBits ::
  "rand_env \<Rightarrow> int \<Rightarrow> rand_world \<Rightarrow> (error + byte list) outcome \<times> rand_world" where
  "pseudorng_ReadBits e bitCount w =
     (if bitCount \<le> 0 then (Returns (Inl (ErrNew ''bitCount must be positive'')), w)
      else
        (let byteCount = int64 (bitCount + 7) sdiv 8;
             buf = replicate (nat byteCount) 0
         in if byteCount < 0 then (Panics ''makeslice: len out of range'', w)
            else
            case crand_Read e buf w of
              ((buf, Some err), w) \<Rightarrow> (Returns (Inl err), w)
            | ((buf, None), w) \<Rightarrow>
                (let extraBits = (8 - (bitCount smod 8)) smod 8
                 in if extraBits \<noteq> 0
                    then
                      (let msk = push_bit (nat extraBits) (0xFF :: byte)
                       in case and_last buf msk of
                            Panics msg \<Rightarrow> (Panics msg, w)
                          | Returns buf \<Rightarrow> (Returns (Inr buf), w))
                    else (Returns (Inr buf), w))))"

section \<open>truerng\<close>

record PortDetails =
  Name :: string
  IsUSB :: bool
  VID :: string
  PID :: string
  SerialNumber :: string
  Product :: string

definition DeviceNamePrefix :: string where
  "DeviceNamePrefix = ''TrueRNG''"

definition hasTrueRNGPrefix :: "PortDetails option \<Rightarrow> bool" where
  "hasTrueRNGPrefix po =
     (case po of
        None \<Rightarrow> False
      | Some p \<Rightarrow>
          if IsUSB p \<and> Product p \<noteq> [] \<and> length (Product p) \<ge> length DeviceNamePrefix \<and>
             take (length DeviceNamePrefix) (Product p) = DeviceNamePrefix then True
          else if IsUSB p \<and> SerialNumber p \<noteq> [] \<and>
             length (SerialNumber p) \<ge> length DeviceNamePrefix \<and>
             take (length DeviceNamePrefix) (SerialNumber p) = DeviceNamePrefix then True
          else if Name p \<noteq> [] \<and> length (Name p) \<ge> length DeviceNamePrefix \<and>
             take (length DeviceNamePrefix) (Name p) = DeviceNamePrefix then True
          else if VID p = ''16D0'' \<and> (PID p = ''0AA0'' \<or> PID p = ''0AA2'' \<or> PID p = ''0AA4'')
          then True
          else False)"

text \<open>
  The serial side: port enumeration, \<open>serial.Open\<close>, the clock and \<open>port.Read\<close>, each
  answered by position.  The clock counts milliseconds.
\<close>

datatype serial_event =
    GetDetailedPortsList
  | SerialOpen string
  | SetDTR bool
  | SetReadTimeout nat
  | ResetInputBuffer
  | TimeNow int
  | PortRead nat "error + byte list"
  | SleepMs nat
  | PortClose

record serial_env =
  ports_res :: "nat \<Rightarrow> error + PortDetails option list"
  sopen_res :: "nat \<Rightarrow> error option"
  clock :: "nat \<Rightarrow> int"
  sread_res :: "nat \<Rightarrow> error + byte list"

record serial_world =
  strace :: "serial_event list"
  n_enum :: nat
  n_sopen :: nat
  n_now :: nat
  n_sread :: nat

definition slog :: "serial_event \<Rightarrow> serial_world \<Rightarrow> serial_world" where
  "slog ev w = w\<lparr>strace := strace w @ [ev]\<rparr>"

definition time_Now :: "serial_env \<Rightarrow> serial_world \<Rightarrow> int \<times> serial_world" where
  "time_Now e w =
     (let t = clock e (n_now w)
      in (t, w\<lparr>strace := strace w @ [TimeNow t], n_now := Suc (n_now w)\<rparr>))"

text \<open>\<open>port.Read(b)\<close> on a slice of \<open>len\<close> bytes: an error, or at most \<open>len\<close> bytes.\<close>

definition port_Read :: "serial_env \<Rightarrow> nat \<Rightarrow> serial_world \<Rightarrow> (error + byte list) \<times> serial_world" where
  "port_Read e len w =
     (let r = (case sread_res e (n_sread w) of
                 Inl err \<Rightarrow> Inl err
               | Inr d \<Rightarrow> Inr (take len d))
      in (r, w\<lparr>strace := strace w @ [PortRead len r], n_sread := Suc (n_sread w)\<rparr>))"

text \<open>The loop of \<open>FindPort\<close> over the enumerated ports.\<close>

fun find_port :: "PortDetails option list \<Rightarrow> string option" where
  "find_port [] = None"
| "find_port (p # ps) =
     (case p of
        None \<Rightarrow> find_port ps
      | Some d \<Rightarrow>
          if hasTrueRNGPrefix p then (if Name d \<noteq> [] then Some (Name d) else find_port ps)
          else find_port ps)"

definition FindPort :: "serial_env \<Rightarrow> serial_world \<Rightarrow> (error + string) \<times> serial_world" where
  "FindPort e w =
     (let w' = w\<lparr>strace := strace w @ [GetDetailedPortsList], n_enum := Suc (n_enum w)\<rparr>
      in case ports_res e (n_enum w) of
           Inl err \<Rightarrow> (Inl (ErrWrap ''enumerating ports'' err), w')
         | Inr ports \<Rightarrow>
             (case find_port ports of
                Some name \<Rightarrow> (Inr name, w')
              | None \<Rightarrow> (Inl (ErrNew ''TrueRNG device not found''), w')))"

text \<open>
  The read loop of \<open>ReadBytes\<close> (part_001, lines 90-102).  It ends when the block is
  full, a read fails or the clock passes the deadline; \<open>fuel\<close> bounds its iterations.
  The source's \<open>total\<close> is \<open>tot\<close> here.
\<close>

fun readBytes_loop ::
  "nat \<Rightarrow> serial_env \<Rightarrow> int \<Rightarrow> int \<Rightarrow> byte list \<Rightarrow> int \<Rightarrow> serial_world
     \<Rightarrow> ((error + byte list) \<times> serial_world) option" where
  "readBytes_loop 0 e blockSize deadline buf tot w =
     (if tot < blockSize then None else Some (Inr buf, w))"
| "readBytes_loop (Suc k) e blockSize deadline buf tot w =
     (if tot < blockSize then
        (case time_Now e w of
           (now, w) \<Rightarrow>
             if now > deadline then Some (Inl (ErrReadTimeout tot blockSize), w)
             else
               (case port_Read e (length buf - nat tot) w of
                  (Inl err, w) \<Rightarrow> Some (Inl (ErrWrap ''read error'' err), w)
                | (Inr d, w) \<Rightarrow>
                    (let n = int (length d);
                         buf = take (nat tot) buf @ d @ drop (nat tot + length d) buf;
                         tot = tot + n;
                         w = (if n = 0 then slog (SleepMs 5) w else w)
                     in readBytes_loop k e blockSize deadline buf tot w)))
      else Some (Inr buf, w))"

text \<open>\<open>ReadBytes(blockSize)\<close> (part_001, lines 59-104); the port is closed on return.\<close>

definition ReadBytes ::
  "nat \<Rightarrow> serial_env \<Rightarrow> int \<Rightarrow> serial_world \<Rightarrow> ((error + byte list) \<times> serial_world) option" where
  "ReadBytes fuel e blockSize w =
     (if blockSize \<le> 0 then Some (Inl (ErrNew ''blockSize must be positive''), w)
      else
        (case FindPort e w of
           (Inl err, w) \<Rightarrow> Some (Inl err, w)
         | (Inr portName, w) \<Rightarrow>
             (let w' = w\<lparr>strace := strace w @ [SerialOpen portName], n_sopen := Suc (n_sopen w)\<rparr>
              in case sopen_res e (n_sopen w) of
                   Some err \<Rightarrow> Some (Inl (ErrWrap (''open '' @ portName) err), w')
                 | None \<Rightarrow>
                     (let w = slog (SetDTR True) w';
                          w = slog (SetReadTimeout 1000) w;
                          w = slog ResetInputBuffer w;
                          buf = replicate (nat blockSize) 0;
                          tot = 0
                      in case time_Now e w of
                           (now, w) \<Rightarrow>
                             (let deadline = now + 10000
                              in case readBytes_loop fuel e blockSize deadline buf tot w of
                                   None \<Rightarrow> None
                                 | Some (r, w) \<Rightarrow> Some (r, slog PortClose w))))))"

text \<open>
  \<open>truerng.ReadBits(bitCount)\<close> (part_001, lines 108-124).  When \<open>bitCount + 7\<close> wraps
  around, \<open>ReadBytes\<close> refuses the negative block size.
\<close>

definition truerng_ReadBits ::
  "nat \<Rightarrow> serial_env \<Rightarrow> int \<Rightarrow> serial_world
     \<Rightarrow> ((error + byte list) outcome \<times> serial_world) option" where
  "truerng_ReadBits fuel e bitCount w =
     (if bitCount \<le> 0 then Some (Returns (Inl (ErrNew ''bitCount must be positive'')), w)
      else
        (let byteCount = int64 (bitCount + 7) sdiv 8
         in case ReadBytes fuel e byteCount w of
              None \<Rightarrow> None
            | Some (Inl err, w) \<Rightarrow> Some (Returns (Inl err), w)
            | Some (Inr data, w) \<Rightarrow>
                (let extraBits = (8 - (bitCount smod 8)) smod 8
                 in if extraBits \<noteq> 0
                    then
                      (let msk = push_bit (nat extraBits) (0xFF :: byte)
                       in case and_last data msk of
                            Panics msg \<Rightarrow> Some (Panics msg, w)
                          | Returns data \<Rightarrow> Some (Returns (Inr data), w))
                    else Some (Returns (Inr data), w))))"

section \<open>The collection loops\<close>

text \<open>
  A collection loop runs against a context that another goroutine may cancel and a
  ticker.  The loop observes them only at its \<open>select\<close> statements, so their behaviour
  over one run is given by: the cycle and the phase of that cycle in which \<open>cancel\<close> is
  called (\<open>AtTop\<close>: before the check that opens the cycle; \<open>InRead\<close>: while the read is
  in flight; \<open>InSend\<close>: while the result is handed over; \<open>InWait\<close>: during the wait for
  the tick); \<open>tick_first k\<close>: in the wait of cycle \<open>k\<close>, when \<open>ctx.Done()\<close> is ready, the
  ticker is ready too and \<open>select\<close> picks it (Go picks among ready cases at random);
  \<open>receiver k\<close>: a receiver takes the \<open>k\<close>-th result from the channel (and, when
  \<open>ctx.Done()\<close> is ready too, \<open>select\<close> picks the send); \<open>stamp k\<close>: \<open>time.Now()\<close> of
  cycle \<open>k\<close>.  A ticker that is not stopped always fires in the end.
\<close>

datatype phase = AtTop | InRead | InSend | InWait

fun phase_num :: "phase \<Rightarrow> nat" where
  "phase_num AtTop = 0"
| "phase_num InRead = 1"
| "phase_num InSend = 2"
| "phase_num InWait = 3"

record sched =
  cancel_at :: "(nat \<times> phase) option"
  tick_first :: "nat \<Rightarrow> bool"
  receiver :: "nat \<Rightarrow> bool"
  stamp :: "nat \<Rightarrow> int"

text \<open>Whether \<open>ctx.Done()\<close> is closed when cycle \<open>k\<close> is in phase \<open>p\<close>.\<close>

definition cancelled_by :: "sched \<Rightarrow> nat \<Rightarrow> phase \<Rightarrow> bool" where
  "cancelled_by sc k p =
     (case cancel_at sc of
        None \<Rightarrow> False
      | Some (k', p') \<Rightarrow> k' < k \<or> (k' = k \<and> phase_num p' \<le> phase_num p))"

record ReadResult =
  Timestamp :: int
  BitsRequested :: int
  Data :: "byte list"
  Err :: "error option"

text \<open>
  What a run of a loop does, in order: a read is issued, it comes back (with its
  error), a batch is handed to \<open>onBatch\<close>, a result is sent on the channel, the channel
  is closed; and, placed where it happens, the call of \<open>cancel\<close>.
\<close>

datatype collect_event =
    ReadStart
  | ReadEnd "error option"
  | OnBatch "byte list"
  | Sent ReadResult
  | ChanClosed
  | CancelRequested

definition note_cancel :: "sched \<Rightarrow> nat \<Rightarrow> phase \<Rightarrow> collect_event list \<Rightarrow> collect_event list" where
  "note_cancel sc k p tr = (if cancel_at sc = Some (k, p) then tr @ [CancelRequested] else tr)"

text \<open>
  The loops of \<open>pseudorng.CollectBitsAtInterval\<close> (pseudorng.go, lines 52-71) and of
  \<open>truerng.CollectBitsAtInterval\<close> (part_001, lines 144-162) are the same statements
  around the package's own \<open>ReadBits\<close>; \<open>collect_loop\<close> is that loop, \<open>rd\<close> the call
  \<open>ReadBits(bitCount)\<close>, \<open>k\<close> the number of the cycle.  The loop ends only by
  returning an error; \<open>fuel\<close> bounds its cycles.
\<close>

fun collect_loop ::
  "nat \<Rightarrow> ('w \<Rightarrow> ((error + byte list) outcome \<times> 'w) option) \<Rightarrow> sched \<Rightarrow> nat
     \<Rightarrow> collect_event list \<Rightarrow> 'w \<Rightarrow> (error outcome \<times> collect_event list \<times> 'w) option" where
  "collect_loop 0 rd sc k tr w = None"
| "collect_loop (Suc f) rd sc k tr w =
     (let tr = note_cancel sc k AtTop tr
      in if cancelled_by sc k AtTop then Some (Returns ErrCanceled, tr, w)
         else
           (case rd w of
              None \<Rightarrow> None
            | Some (r, w) \<Rightarrow>
                (let tr = note_cancel sc k InRead (tr @ [ReadStart])
                 in case r of
                      Panics msg \<Rightarrow> Some (Panics msg, tr, w)
                    | Returns (Inl err) \<Rightarrow> Some (Returns err, tr @ [ReadEnd (Some err)], w)
                    | Returns (Inr b) \<Rightarrow>
                        (let tr = tr @ [ReadEnd None, OnBatch b];
                             tr = note_cancel sc k InSend tr;
                             tr = note_cancel sc k InWait tr
                         in if cancelled_by sc k InWait \<and> \<not> tick_first sc k
                            then Some (Returns ErrCanceled, tr, w)
                            else collect_loop f rd sc (Suc k) tr w))))"

text \<open>
  \<open>pseudorng.CollectBitsAtInterval(ctx, bitCount, interval, onBatch)\<close> (lines 38-71);
  \<open>onBatch_nil\<close> says whether the callback is nil, \<open>interval\<close> is in nanoseconds.
\<close>

definition pseudorng_CollectBitsAtInterval ::
  "nat \<Rightarrow> rand_env \<Rightarrow> sched \<Rightarrow> int \<Rightarrow> int \<Rightarrow> bool \<Rightarrow> rand_world
     \<Rightarrow> (error outcome \<times> collect_event list \<times> rand_world) option" where
  "pseudorng_CollectBitsAtInterval fuel e sc bitCount interval onBatch_nil w =
     (if bitCount \<le> 0 then Some (Returns (ErrNew ''bitCount must be positive''), [], w)
      else if interval \<le> 0 then Some (Returns (ErrNew ''interval must be positive''), [], w)
      else if onBatch_nil then Some (Returns (ErrNew ''onBatch callback must not be nil''), [], w)
      else collect_loop fuel (\<lambda>w. Some (pseudorng_ReadBits e bitCount w)) sc 0 [] w)"

text \<open>
  \<open>truerng.CollectBitsAtInterval(ctx, bitCount, interval, onBatch)\<close> (part_001, lines
  129-163); \<open>rfuel\<close> bounds the read loop of each \<open>ReadBits\<close>.
\<close>

definition truerng_CollectBitsAtInterval ::
  "nat \<Rightarrow> nat \<Rightarrow> serial_env \<Rightarrow> sched \<Rightarrow> int \<Rightarrow> int \<Rightarrow> bool \<Rightarrow> serial_world
     \<Rightarrow> (error outcome \<times> collect_event list \<times> serial_world) option" where
  "truerng_CollectBitsAtInterval fuel rfuel e sc bitCount interval onBatch_nil w =
     (if bitCount \<le> 0 then Some (Returns (ErrNew ''bitCount must be positive''), [], w)
      else if interval \<le> 0 then Some (Returns (ErrNew ''interval must be positive''), [], w)
      else if onBatch_nil then Some (Returns (ErrNew ''onBatch callback must not be nil''), [], w)
      else collect_loop fuel (truerng_ReadBits rfuel e bitCount) sc 0 [] w)"

text \<open>
  The loop of the goroutine of \<open>bbusb.StartBitCollector\<close> (part_002, lines 93-123).
  The send blocks until a receiver takes the result or the context is cancelled; with
  neither it blocks for ever (\<open>None\<close>).
\<close>

fun bb_collect_loop ::
  "nat \<Rightarrow> nat \<Rightarrow> usb_env \<Rightarrow> sched \<Rightarrow> DeviceSession \<Rightarrow> int \<Rightarrow> int \<Rightarrow> nat
     \<Rightarrow> collect_event list \<Rightarrow> usb_world \<Rightarrow> (unit outcome \<times> collect_event list \<times> usb_world) option" where
  "bb_collect_loop 0 rfuel e sc s bits numBytes k tr w = None"
| "bb_collect_loop (Suc f) rfuel e sc s bits numBytes k tr w =
     (let tr = note_cancel sc k AtTop tr
      in if cancelled_by sc k AtTop then Some (Returns (), tr, w)
         else
           (let buf = replicate (nat numBytes) 0
            in if numBytes < 0 then Some (Panics ''makeslice: len out of range'', tr, w)
               else
               case ReadRandom rfuel e s buf w of
                 None \<Rightarrow> None
               | Some (Panics msg, w) \<Rightarrow>
                   Some (Panics msg, note_cancel sc k InRead (tr @ [ReadStart]), w)
               | Some (Returns (n, err, buf), w) \<Rightarrow>
                   (let tr = note_cancel sc k InRead (tr @ [ReadStart]) @ [ReadEnd err];
                        buf = (if err = None \<and> n < numBytes then take (nat n) buf else buf)
                    in case (if err = None \<and> bits smod 8 \<noteq> 0 \<and> length buf > 0
                             then (let excess = 8 - (bits smod 8)
                                   in and_last buf (drop_bit (nat excess) 0xFF))
                             else Returns buf) of
                         Panics msg \<Rightarrow> Some (Panics msg, tr, w)
                       | Returns buf \<Rightarrow>
                           (let tr = note_cancel sc k InSend tr
                            in if \<not> receiver sc k
                               then (if cancelled_by sc k InSend then Some (Returns (), tr, w)
                                     else None)
                               else
                                 (let tr = tr @ [Sent \<lparr>Timestamp = stamp sc k,
                                                        BitsRequested = bits,
                                                        Data = buf, Err = err\<rparr>];
                                      tr = note_cancel sc k InWait tr
                                  in if cancelled_by sc k InWait \<and> \<not> tick_first sc k
                                     then Some (Returns (), tr, w)
                                     else bb_collect_loop f rfuel e sc s bits numBytes (Suc k) tr w)))))"

text \<open>
  \<open>StartBitCollector(ctx, bits, interval, bitrate, latencyMs)\<close> (part_002, lines 70-127):
  an error and no channel, or the channel together with what its goroutine does.  When
  the goroutine ends, the deferred calls close the session and then the channel.
\<close>

definition StartBitCollector ::
  "nat \<Rightarrow> nat \<Rightarrow> usb_env \<Rightarrow> sched \<Rightarrow> int \<Rightarrow> int \<Rightarrow> 64 word \<Rightarrow> byte \<Rightarrow> usb_world
     \<Rightarrow> ((error + unit outcome) \<times> collect_event list \<times> usb_world) option" where
  "StartBitCollector fuel rfuel e sc bits interval bitrate latencyMs w =
     (if bits \<le> 0 then Some (Inl (ErrNew ''bits must be > 0''), [], w)
      else if interval \<le> 0 then Some (Inl (ErrNew ''interval must be > 0''), [], w)
      else
        (case OpenBitBabbler e bitrate latencyMs w of
           ((sess, Some err), w) \<Rightarrow> Some (Inl err, [], w)
         | ((None, None), w) \<Rightarrow>
             (let tr = note_cancel sc 0 AtTop []
              in if cancelled_by sc 0 AtTop then Some (Inr (Returns ()), tr @ [ChanClosed], w)
                 else Some (Inr (Panics ''nil pointer dereference''), tr @ [ChanClosed], w))
         | ((Some s, None), w) \<Rightarrow>
             (let numBytes = int64 (bits + 7) sdiv 8
              in case bb_collect_loop fuel rfuel e sc s bits numBytes 0 [] w of
                   None \<Rightarrow> None
                 | Some (r, tr, w) \<Rightarrow> Some (Inr r, tr @ [ChanClosed], Close (Some s) w))))"

section \<open>Reference notions and test devices\<close>

text \<open>The data of the bulk writes of a log, in their order.\<close>

fun bulk_writes :: "usb_event list \<Rightarrow> byte list list" where
  "bulk_writes [] = []"
| "bulk_writes (BulkWrite d r # evs) = d # bulk_writes evs"
| "bulk_writes (ev # evs) = bulk_writes evs"

text \<open>
  A test device: one interface with a bulk IN and a bulk OUT endpoint of 64 bytes per
  packet, every control transfer and write succeeds, and the bulk reads answer the
  listed packets in turn (and fail once the list is used up).
\<close>

definition mock_env :: "(byte list \<times> error option) list \<Rightarrow> usb_env" where
  "mock_env reads =
     \<lparr>open_res = Inr True, config_res = None,
      interface_res =
        Inr [\<lparr>Number = 1, Direction = EndpointDirectionIn,
               TransferType = TransferTypeBulk, MaxPacketSize = 64\<rparr>,
             \<lparr>Number = 2, Direction = EndpointDirectionOut,
               TransferType = TransferTypeBulk, MaxPacketSize = 64\<rparr>],
      in_endpoint_res = (\<lambda>n. None), out_endpoint_res = (\<lambda>n. None),
      ctl_resp = (\<lambda>i. None), wr_resp = (\<lambda>i. None),
      rd_resp = (\<lambda>i. if i < length reads then reads ! i else ([], Some (ErrExt 1)))\<rparr>"

definition mock_session :: DeviceSession where
  "mock_session =
     \<lparr>ctx = True, dev = True, cfg = True, intf = True,
      inEp = \<lparr>Number = 1, Direction = EndpointDirectionIn,
               TransferType = TransferTypeBulk, MaxPacketSize = 64\<rparr>,
      outEp = \<lparr>Number = 2, Direction = EndpointDirectionOut,
                TransferType = TransferTypeBulk, MaxPacketSize = 64\<rparr>,
      maxPacket = 64\<rparr>"

definition world0 :: usb_world where
  "world0 = \<lparr>trace = [], n_ctl = 0, n_wr = 0, n_rd = 0,
              ctx_held = False, dev_held = False, cfg_held = False, intf_held = False\<rparr>"

text \<open>
  The packets a device in good order answers while it is opened: a bare status header
  for the purge, the two sync replies, a bare status header for the last purge.
\<close>

definition open_reads :: "(byte list \<times> error option) list" where
  "open_reads =
     [([0x32, 0x60], None), ([0x32, 0x60, 0xFA, 0xAA], None),
      ([0x32, 0x60, 0xFA, 0xAB], None), ([0x32, 0x60], None)]"

text \<open>
  A fresh world holds nothing; \<open>mock_open_world clkDiv lat\<close> is the world after
  \<open>OpenBitBabbler\<close> has opened that device from \<open>world0\<close> with clock divisor \<open>clkDiv\<close>
  and latency \<open>lat\<close>.
\<close>

definition mock_open_world :: "16 word \<Rightarrow> byte \<Rightarrow> usb_world" where
  "mock_open_world clkDiv lat =
     \<lparr>trace =
        [NewContext, OpenDeviceWithVIDPID 0x0403 0x7840, SetAutoDetach, DevConfig 1,
         CfgInterface 0 0, IntfInEndpoint 1, IntfOutEndpoint 2,
         Control False 0x00 0 1 None,
         BulkRead 8192 [0x32, 0x60] None,
         Control False 0x06 0 1 None,
         Control False 0x07 0 1 None,
         Control False 0x09 (ucast lat) 1 None,
         Control False 0x02 0 0x0101 None,
         Control False 0x0B 0 1 None,
         Control False 0x0B 0x0200 1 None,
         Sleep 50,
         BulkWrite [0xAA, 0x87] None,
         BulkRead 512 [0x32, 0x60, 0xFA, 0xAA] None,
         BulkWrite [0xAB, 0x87] None,
         BulkRead 512 [0x32, 0x60, 0xFA, 0xAB] None,
         BulkWrite [0x8A, 0x97, 0x8D, 0x80, 0x00, 0x0B, 0x82, 0x00, 0x00, 0x86,
                    ucast (clkDiv AND 0xFF), ucast (drop_bit 8 clkDiv), 0x85] None,
         Sleep 30,
         BulkRead 8192 [0x32, 0x60] None],
      n_ctl = 7, n_wr = 3, n_rd = 4,
      ctx_held = True, dev_held = True, cfg_held = True, intf_held = True\<rparr>"

text \<open>
  The clock divisor as the specification words it: \<open>round(30_000_000 / desired_bitrate) - 1\<close>,
  rounding to the nearest integer.
\<close>

definition spec_clock_divisor :: "nat \<Rightarrow> int" where
  "spec_clock_divisor bitrate = round (30000000 / real bitrate) - 1"

text \<open>An entropy reader that supplies the listed bytes at every call, and a fresh world.\<close>

definition mock_rand :: "byte list \<Rightarrow> rand_env" where
  "mock_rand bs = \<lparr>crand = (\<lambda>i. Inr bs)\<rparr>"

definition rand_world0 :: rand_world where
  "rand_world0 = \<lparr>rtrace = [], n_crand = 0\<rparr>"

text \<open>
  A serial side with one TrueRNG port \<open>COM5\<close> that opens, a clock that stands still
  and reads that each return the listed bytes; and a fresh world.
\<close>

definition mock_serial :: "byte list \<Rightarrow> serial_env" where
  "mock_serial bs =
     \<lparr>ports_res = (\<lambda>i. Inr [Some \<lparr>Name = ''COM5'', IsUSB = True, VID = ''04D8'',
                                      PID = ''F5FE'', SerialNumber = [],
                                      Product = ''TrueRNG V3''\<rparr>]),
      sopen_res = (\<lambda>i. None),
      clock = (\<lambda>i. 0),
      sread_res = (\<lambda>i. Inr bs)\<rparr>"

definition serial_world0 :: serial_world where
  "serial_world0 = \<lparr>strace = [], n_enum = 0, n_sopen = 0, n_now = 0, n_sread = 0\<rparr>"

text \<open>
  The position, in the initialization sequence of the specification (section 4.2), of
  the step a logged call belongs to while a device is being opened: 1 reset, 2 purge,
  3 special characters, 4 latency timer, 5 flow control, 6 bit mode and its pause,
  7 synchronization check, 8 programming.  Calls that are no transfer of the sequence
  (acquiring and releasing the USB resources) have position 0.
\<close>

fun init_step :: "usb_event \<Rightarrow> nat" where
  "init_step (Control inp req v i r) =
     (if req = 0x00 then 1
      else if req = 0x06 \<or> req = 0x07 then 3
      else if req = 0x09 then 4
      else if req = 0x02 then 5
      else if req = 0x0B then 6
      else 0)"
| "init_step (BulkRead n d r) = (if n = 8192 then 2 else if n = 512 then 7 else 0)"
| "init_step (BulkWrite d r) = (if length d = 2 then 7 else if length d = 13 then 8 else 0)"
| "init_step (Sleep ms) = (if ms = 50 then 6 else if ms = 30 then 8 else 0)"
| "init_step ev = 0"





definition acquired_world :: usb_world where
  "acquired_world =
     \<lparr>trace = [NewContext, OpenDeviceWithVIDPID 0x0403 0x7840, SetAutoDetach, DevConfig 1,
               CfgInterface 0 0, IntfInEndpoint 1, IntfOutEndpoint 2],
      n_ctl = 0, n_wr = 0, n_rd = 0,
      ctx_held = True, dev_held = True, cfg_held = True, intf_held = True\<rparr>"


text \<open>
  The reply a synchronization check waits for: a read of exactly 4 bytes whose third
  byte is \<open>0xFA\<close> and whose fourth byte is the bogus command (the error of the read is
  not looked at).
\<close>

definition sync_reply :: "byte \<Rightarrow> byte list \<times> error option \<Rightarrow> bool" where
  "sync_reply cmd rd = (length (fst rd) = 4 \<and> fst rd ! 2 = 0xFA \<and> fst rd ! 3 = cmd)"

text \<open>
  The packets of a device that stays silent during the first check of \<open>0xAA\<close> (ten bare
  status headers) and answers the retry; and the worlds of the test device after the
  control transfers, after the failed first pass and after the retry.
\<close>

definition retry_reads :: "(byte list \<times> error option) list" where
  "retry_reads =
     ([0x32, 0x60], None) # replicate 10 ([0x32, 0x60], None) @
     [([0x32, 0x60, 0xFA, 0xAA], None), ([0x32, 0x60, 0xFA, 0xAB], None), ([0x32, 0x60], None)]"

definition controls_world :: usb_world where
  "controls_world =
     \<lparr>trace = trace acquired_world @
        [Control False 0x00 0 1 None,
         BulkRead 8192 [0x32, 0x60] None,
         Control False 0x06 0 1 None,
         Control False 0x07 0 1 None,
         Control False 0x09 1 1 None,
         Control False 0x02 0 0x0101 None,
         Control False 0x0B 0 1 None,
         Control False 0x0B 0x0200 1 None,
         Sleep 50],
      n_ctl = 7, n_wr = 0, n_rd = 1,
      ctx_held = True, dev_held = True, cfg_held = True, intf_held = True\<rparr>"

definition pass1_world :: usb_world where
  "pass1_world =
     \<lparr>trace = trace controls_world @
        BulkWrite [0xAA, 0x87] None # replicate 10 (BulkRead 512 [0x32, 0x60] None),
      n_ctl = 7, n_wr = 1, n_rd = 11,
      ctx_held = True, dev_held = True, cfg_held = True, intf_held = True\<rparr>"

definition pass2_world :: usb_world where
  "pass2_world =
     \<lparr>trace = trace pass1_world @
        [BulkWrite [0xAA, 0x87] None, BulkRead 512 [0x32, 0x60, 0xFA, 0xAA] None,
         BulkWrite [0xAB, 0x87] None, BulkRead 512 [0x32, 0x60, 0xFA, 0xAB] None],
      n_ctl = 7, n_wr = 3, n_rd = 13,
      ctx_held = True, dev_held = True, cfg_held = True, intf_held = True\<rparr>"



definition step_program ::
  "usb_env \<Rightarrow> DeviceSession \<Rightarrow> 64 word \<Rightarrow> usb_world \<Rightarrow> error option \<times> usb_world" where
  "step_program e s bitrate w =
     (let clkDiv = (ucast (30000000 div bitrate - 1) :: 16 word);
          cmd = [mpsseNoClkDiv5, mpsseNoAdaptiveClk, mpsseNo3PhaseClk,
                 mpsseSetDataLow, 0x00, 0x0B,
                 mpsseSetDataHigh, 0x00, 0x00,
                 mpsseSetClkDivisor,
                 ucast (clkDiv AND 0xFF), ucast (drop_bit 8 clkDiv),
                 0x85]
      in case outEp_Write e cmd w of
           (Some err, w) \<Rightarrow> (Some err, w)
         | (None, w) \<Rightarrow> (None, snd (purgeRead e s (log_event (Sleep 30) w))))"






text \<open>
  The contract of \<open>ReadBits\<close> as the specification words it (section 3): the result
  has exactly \<open>ceil(bits/8)\<close> bytes, and if \<open>bits mod 8\<close> is not 0 the low
  \<open>8 - bits mod 8\<close> bits of the last byte are zero.
\<close>

definition spec_zero_padded :: "int \<Rightarrow> byte list \<Rightarrow> bool" where
  "spec_zero_padded bits bs =
     (int (length bs) = (bits + 7) div 8 \<and>
      (bits mod 8 = 0 \<or> take_bit (nat (8 - bits mod 8)) (last bs) = 0))"

text \<open>
  Notions about the log of a collection loop.  \<open>halts_at_error r tr\<close>: a read that came
  back with an error is the last event of the log, and its error is what the loop
  returned.  \<open>quiet_after_cancel tr\<close>: after the request of the cancellation the log
  holds no read and no delivery, nothing but the closing of the channel.
  \<open>error_free\<close> and \<open>cancel_free\<close>: the log holds no failed read, no request of the
  cancellation.
\<close>

definition halts_at_error :: "error outcome \<Rightarrow> collect_event list \<Rightarrow> bool" where
  "halts_at_error r tr =
     (\<forall>pre err post. tr = pre @ ReadEnd (Some err) # post \<longrightarrow> post = [] \<and> r = Returns err)"

definition error_free :: "collect_event list \<Rightarrow> bool" where
  "error_free tr = (\<forall>err. ReadEnd (Some err) \<notin> set tr)"

definition quiet_after_cancel :: "collect_event list \<Rightarrow> bool" where
  "quiet_after_cancel tr =
     (\<forall>pre post. tr = pre @ CancelRequested # post \<longrightarrow> (\<forall>ev \<in> set post. ev = ChanClosed))"

definition cancel_free :: "collect_event list \<Rightarrow> bool" where
  "cancel_free tr = (CancelRequested \<notin> set tr)"

text \<open>
  Test surroundings of the loops: an entropy reader whose \<open>k\<close>-th call fails; a run
  without cancellation whose results are all taken; a run in which \<open>cancel\<close> is called
  during the wait of cycle \<open>k\<close>, with the ticker ready as well and chosen (\<open>tick\<close>) or not.
\<close>

definition failing_rand :: "nat \<Rightarrow> byte list \<Rightarrow> rand_env" where
  "failing_rand k bs = \<lparr>crand = (\<lambda>i. if i = k then Inl (ErrExt 3) else Inr bs)\<rparr>"

definition no_cancel :: sched where
  "no_cancel = \<lparr>cancel_at = None, tick_first = (\<lambda>k. False), receiver = (\<lambda>k. True),
                stamp = (\<lambda>k. int k)\<rparr>"

definition cancel_in_wait :: "nat \<Rightarrow> bool \<Rightarrow> sched" where
  "cancel_in_wait k tick = \<lparr>cancel_at = Some (k, InWait), tick_first = (\<lambda>k. tick),
                receiver = (\<lambda>k. True), stamp = (\<lambda>k. int k)\<rparr>"

section \<open>Properties\<close>

subsection \<open>Evaluating the loops on numerals, and the test device\<close>

lemma purge_loop_numeral:
  "purge_loop (numeral n) e buf w =
     (case inEp_Read e buf w of
        ((m, buf', r), w') \<Rightarrow> if m \<le> 2 then w' else purge_loop (pred_numeral n) e buf' w')"
  by (simp add: numeral_eq_Suc)

lemma sync_loop_numeral:
  "sync_loop (numeral n) e cmd buf w =
     (case inEp_Read e buf w of
        ((m, buf', r), w') \<Rightarrow>
          if m = 4 \<and> buf' ! 2 = 0xFA \<and> buf' ! 3 = cmd then (True, w')
          else sync_loop (pred_numeral n) e cmd buf' w')"
  by (simp add: numeral_eq_Suc)

lemmas usb_defs = OpenBitBabbler_def OpenBitBabbler_usb_def OpenBitBabbler_controls_def
  OpenBitBabbler_sync_def sync_AA_AB_def checkSync_def purgeRead_def log_event_def
  ftdiReset_def control_def dev_Control_def ftdiSetSpecialChars_def ftdiSetLatencyTimer_def
  ftdiSetFlowControl_def ftdiSetBitmode_def outEp_Write_def inEp_Read_def Close_def Let_def
  NewContext_call_def ctx_OpenDeviceWithVIDPID_def dev_Config_def cfg_Interface_def
  Interface_Close_def Config_Close_def Device_Close_def Context_Close_def

lemmas usb_consts = ftdiVendorID_def bbProductID_def mpsseNoClkDiv5_def mpsseNoAdaptiveClk_def
  mpsseNo3PhaseClk_def mpsseSetDataLow_def mpsseSetDataHigh_def mpsseSetClkDivisor_def
  mpsseSendImmediate_def mpsseDataByteInPosMSB_def ftdiReqReset_def ftdiReqSetFlowCtrl_def
  ftdiReqSetEventChar_def ftdiReqSetErrorChar_def ftdiReqSetLatency_def ftdiReqSetBitmode_def
  ftdiResetSIO_def ftdiFlowRtsCts_def ftdiBitmodeReset_def ftdiBitmodeMpsse_def

lemma open_mock:
  "OpenBitBabbler (mock_env (open_reads @ rs)) b l world0 =
     ((Some mock_session, None),
      mock_open_world (ucast (30000000 div (if b = 0 then 2500000 else b) - 1))
        (if l = 0 then 1 else l))"
  by (simp add: usb_defs usb_consts purge_loop_numeral sync_loop_numeral mock_env_def world0_def
      open_reads_def nth_append mock_session_def mock_open_world_def)

lemma open_mock0:
  "OpenBitBabbler (mock_env open_reads) b l world0 =
     ((Some mock_session, None),
      mock_open_world (ucast (30000000 div (if b = 0 then 2500000 else b) - 1))
        (if l = 0 then 1 else l))"
  using open_mock [of "[]"] by simp

subsection \<open>Words\<close>

lemma and_ff16: "(x :: 16 word) AND 0xFF = take_bit 8 x"
proof -
  have "(0xFF :: 16 word) = mask 8" by (simp add: mask_eq_exp_minus_1)
  then show ?thesis by (simp add: take_bit_eq_mask)
qed

lemma bytes_of_u16:
  "uint (ucast (x AND 0xFF) :: 8 word) + 256 * uint (ucast (drop_bit 8 x) :: 8 word)
     = uint (x :: 16 word)"
proof -
  have lt: "uint x < 65536" using uint_bounded [of x] by simp
  have ge: "0 \<le> uint x" by simp
  have a: "uint (ucast (x AND 0xFF) :: 8 word) = uint x mod 256"
    by (simp add: and_ff16 unsigned_ucast_eq unsigned_take_bit_eq take_bit_eq_mod uint_mod)
  have "uint (ucast (drop_bit 8 x) :: 8 word) = (uint x div 256) mod 256"
    by (simp add: unsigned_ucast_eq unsigned_drop_bit_eq take_bit_eq_mod drop_bit_eq_div uint_div)
  also have "\<dots> = uint x div 256"
  proof (rule mod_pos_pos_trivial)
    show "0 \<le> uint x div 256" using ge by (simp add: pos_imp_zdiv_nonneg_iff)
    show "uint x div 256 < 256" using lt by linarith
  qed
  finally have b: "uint (ucast (drop_bit 8 x) :: 8 word) = uint x div 256" .
  show ?thesis unfolding a b by simp
qed

lemma uint_clkDiv:
  "uint (ucast (30000000 div b - 1 :: 64 word) :: 16 word) = (30000000 div uint b - 1) mod 65536"
proof -
  have "uint (ucast (30000000 div b - 1 :: 64 word) :: 16 word)
          = uint (30000000 div b - 1) mod 65536"
    by (simp add: unsigned_ucast_eq take_bit_eq_mod)
  also have "uint (30000000 div b - 1) = (uint (30000000 div b) - 1) mod 2 ^ 64"
    by (simp add: uint_word_ariths)
  also have "uint (30000000 div b) = 30000000 div uint b"
    by (simp add: uint_div)
  also have "((30000000 div uint b - 1) mod 2 ^ 64) mod 65536
               = (30000000 div uint b - 1) mod 65536"
    by (rule mod_mod_cancel) simp
  finally show ?thesis .
qed

subsection \<open>Close\<close>

lemmas close_defs = Interface_Close_def Config_Close_def Device_Close_def Context_Close_def
  log_event_def

lemma Interface_Close_sel:
  "intf_held (Interface_Close w) = False" "cfg_held (Interface_Close w) = cfg_held w"
  "dev_held (Interface_Close w) = dev_held w" "ctx_held (Interface_Close w) = ctx_held w"
  "trace (Interface_Close w) = trace w @ (if intf_held w then [IntfClose] else [])"
  by (simp_all add: close_defs)

lemma Config_Close_sel:
  "intf_held (Config_Close w) = intf_held w"
  "cfg_held (Config_Close w) = (cfg_held w \<and> intf_held w)"
  "dev_held (Config_Close w) = dev_held w" "ctx_held (Config_Close w) = ctx_held w"
  "trace (Config_Close w) = trace w @ (if cfg_held w \<and> \<not> intf_held w then [CfgClose] else [])"
  by (auto simp: close_defs)

lemma Device_Close_sel:
  "intf_held (Device_Close w) = intf_held w" "cfg_held (Device_Close w) = cfg_held w"
  "dev_held (Device_Close w) = (dev_held w \<and> cfg_held w)"
  "ctx_held (Device_Close w) = ctx_held w"
  "trace (Device_Close w) = trace w @ (if dev_held w \<and> \<not> cfg_held w then [DevClose] else [])"
  by (auto simp: close_defs)

lemma Context_Close_sel:
  "intf_held (Context_Close w) = intf_held w" "cfg_held (Context_Close w) = cfg_held w"
  "dev_held (Context_Close w) = dev_held w" "ctx_held (Context_Close w) = False"
  "trace (Context_Close w) = trace w @ (if ctx_held w then [CtxClose] else [])"
  by (simp_all add: close_defs)

lemmas close_sel = Interface_Close_sel Config_Close_sel Device_Close_sel Context_Close_sel

lemma close_noop:
  "\<not> intf_held w \<Longrightarrow> Interface_Close w = w"
  "\<not> (cfg_held w \<and> \<not> intf_held w) \<Longrightarrow> Config_Close w = w"
  "\<not> (dev_held w \<and> \<not> cfg_held w) \<Longrightarrow> Device_Close w = w"
  "\<not> ctx_held w \<Longrightarrow> Context_Close w = w"
  by (simp_all add: close_defs)

lemma Close_twice: "Close so (Close so w) = Close so w"
proof (cases so)
  case None
  then show ?thesis by (simp add: Close_def)
next
  case (Some s)
  show ?thesis
    unfolding Some Close_def Let_def option.case
    by (cases "intf s"; cases "cfg s"; cases "dev s"; cases "ctx s")
       (simp_all add: close_noop close_sel)
qed

lemma Close_subseq:
  "\<exists>rel. trace (Close so w) = trace w @ rel \<and>
         subseq rel [IntfClose, CfgClose, DevClose, CtxClose]"
proof (cases so)
  case None
  then show ?thesis by (simp add: Close_def)
next
  case (Some s)
  show ?thesis
    unfolding Some Close_def Let_def option.case
    by (cases "intf s"; cases "cfg s"; cases "dev s"; cases "ctx s")
       (simp_all add: close_sel)
qed

lemma Close_held:
  assumes "intf s" "cfg s" "dev s" "ctx s"
      and "intf_held w" "cfg_held w" "dev_held w" "ctx_held w"
  shows "Close (Some s) w =
           w\<lparr>trace := trace w @ [IntfClose, CfgClose, DevClose, CtxClose],
             ctx_held := False, dev_held := False, cfg_held := False, intf_held := False\<rparr>"
  using assms
  by (simp add: Close_def Interface_Close_def Config_Close_def Device_Close_def
      Context_Close_def log_event_def)

text \<open>
  Claim C9.  A second \<open>Close\<close> right after a first one changes nothing: it releases
  nothing, logs nothing and leaves the world as the first call left it; this holds for
  every session, the nil session included, and every state of the library.  \<open>Close\<close>
  has no result and none of its statements can panic (each field is tested for nil
  before it is used).  The releases a call makes are made in the order interface,
  configuration, device handle, USB context; on a session whose four objects are held
  it makes all four, and none is held afterwards.
\<close>

theorem Close_idempotent_in_order:
  "Close so (Close so w) = Close so w \<and>
   (\<exists>rel. trace (Close so w) = trace w @ rel \<and>
          subseq rel [IntfClose, CfgClose, DevClose, CtxClose]) \<and>
   (intf s \<and> cfg s \<and> dev s \<and> ctx s \<and>
    intf_held w \<and> cfg_held w \<and> dev_held w \<and> ctx_held w \<longrightarrow>
      trace (Close (Some s) w) = trace w @ [IntfClose, CfgClose, DevClose, CtxClose] \<and>
      \<not> intf_held (Close (Some s) w) \<and> \<not> cfg_held (Close (Some s) w) \<and>
      \<not> dev_held (Close (Some s) w) \<and> \<not> ctx_held (Close (Some s) w))"
  using Close_twice [of so w] Close_subseq [of so w] by (simp add: Close_held)

theorem Close_idempotent_in_order_witness:
  "Close (Some mock_session) (Close (Some mock_session) (mock_open_world 11 1))
     = Close (Some mock_session) (mock_open_world 11 1) \<and>
   trace (Close (Some mock_session) (mock_open_world 11 1))
     = trace (mock_open_world 11 1) @ [IntfClose, CfgClose, DevClose, CtxClose] \<and>
   \<not> intf_held (Close (Some mock_session) (mock_open_world 11 1)) \<and>
   \<not> ctx_held (Close (Some mock_session) (mock_open_world 11 1))"
  using Close_idempotent_in_order [of "Some mock_session" "mock_open_world 11 1" mock_session]
  by (simp add: mock_session_def mock_open_world_def)

subsection \<open>The clock divisor\<close>

lemma bulk_writes_append: "bulk_writes (xs @ ys) = bulk_writes xs @ bulk_writes ys"
  by (induction xs rule: bulk_writes.induct) simp_all

lemma inEp_Read_writes: "bulk_writes (trace (snd (inEp_Read e buf w))) = bulk_writes (trace w)"
  by (simp add: inEp_Read_def bulk_writes_append Let_def split: prod.splits)

lemma purge_loop_writes: "bulk_writes (trace (purge_loop k e buf w)) = bulk_writes (trace w)"
proof (induction k arbitrary: buf w)
  case 0
  show ?case by simp
next
  case (Suc k)
  obtain m buf' r w1 where rd: "inEp_Read e buf w = ((m, buf', r), w1)"
    by (metis prod_cases3 surj_pair)
  then have "bulk_writes (trace w1) = bulk_writes (trace w)"
    using inEp_Read_writes [of e buf w] by simp
  then show ?case using rd Suc.IH [of buf' w1] by simp
qed

text \<open>
  Claim C6, as the code has it.  Whenever \<open>OpenBitBabbler\<close> returns a session, the
  last command it wrote is the 13-byte programming command, and the two divisor bytes
  in it (low byte, then high byte) hold \<open>30_000_000 div bitrate - 1\<close> reduced modulo
  \<open>2^16\<close>, where \<open>div\<close> is the truncating division of unsigned integers and a bitrate of
  0 stands for 2_500_000.
\<close>

theorem OpenBitBabbler_clock_divisor:
  assumes "OpenBitBabbler e bitrate latencyMs w = ((Some s, None), w')"
  shows "\<exists>lo hi. last (bulk_writes (trace w')) =
            [0x8A, 0x97, 0x8D, 0x80, 0x00, 0x0B, 0x82, 0x00, 0x00, 0x86, lo, hi, 0x85] \<and>
          uint lo + 256 * uint hi =
            (30000000 div (if bitrate = 0 then 2500000 else uint bitrate) - 1) mod 65536"
proof -
  define b where "b = (if bitrate = 0 then 2500000 else bitrate)"
  define clkDiv where "clkDiv = (ucast (30000000 div b - 1) :: 16 word)"
  define cmd where "cmd = [mpsseNoClkDiv5, mpsseNoAdaptiveClk, mpsseNo3PhaseClk,
       mpsseSetDataLow, 0x00, 0x0B, mpsseSetDataHigh, 0x00, 0x00, mpsseSetClkDivisor,
       ucast (clkDiv AND 0xFF), ucast (drop_bit 8 clkDiv), (0x85 :: byte)]"
  from assms obtain w3 w4 where wr: "outEp_Write e cmd w3 = (None, w4)"
    and w': "w' = snd (purgeRead e s (log_event (Sleep 30) w4))"
    unfolding OpenBitBabbler_def Let_def b_def [symmetric] clkDiv_def [symmetric]
      cmd_def [symmetric]
    by (auto split: prod.splits sum.splits option.splits bool.splits)
  from wr have "trace w4 = trace w3 @ [BulkWrite cmd None]"
    by (auto simp: outEp_Write_def Let_def)
  then have "bulk_writes (trace w') = bulk_writes (trace w3) @ [cmd]"
    by (simp add: w' purgeRead_def purge_loop_writes log_event_def bulk_writes_append)
  then have l: "last (bulk_writes (trace w')) = cmd" by simp
  have ub: "uint b = (if bitrate = 0 then 2500000 else uint bitrate)" by (simp add: b_def)
  have "uint (ucast (clkDiv AND 0xFF) :: byte) + 256 * uint (ucast (drop_bit 8 clkDiv) :: byte)
          = uint clkDiv"
    by (rule bytes_of_u16)
  also have "\<dots> = (30000000 div uint b - 1) mod 65536"
    unfolding clkDiv_def by (rule uint_clkDiv)
  finally have eq:
    "uint (ucast (clkDiv AND 0xFF) :: byte) + 256 * uint (ucast (drop_bit 8 clkDiv) :: byte)
       = (30000000 div (if bitrate = 0 then 2500000 else uint bitrate) - 1) mod 65536"
    using ub by simp
  show ?thesis
    apply (rule exI [of _ "ucast (clkDiv AND 0xFF)"])
    apply (rule exI [of _ "ucast (drop_bit 8 clkDiv)"])
    using l eq by (simp add: cmd_def usb_consts)
qed

theorem OpenBitBabbler_clock_divisor_witness:
  "OpenBitBabbler (mock_env open_reads) 2500000 1 world0
     = ((Some mock_session, None), mock_open_world 11 1) \<and>
   (\<exists>lo hi. last (bulk_writes (trace (mock_open_world 11 1))) =
            [0x8A, 0x97, 0x8D, 0x80, 0x00, 0x0B, 0x82, 0x00, 0x00, 0x86, lo, hi, 0x85] \<and>
          uint lo + 256 * uint hi = 11)"
proof -
  have o: "OpenBitBabbler (mock_env open_reads) 2500000 1 world0
             = ((Some mock_session, None), mock_open_world 11 1)"
    by (simp add: open_mock0)
  show ?thesis
    using o OpenBitBabbler_clock_divisor [OF o] by simp
qed

text \<open>
  Claim C6 as stated fails: for a desired bitrate of 8_000_000 the test device is
  opened and the divisor bytes written are 2 and 0, while
  \<open>round(30_000_000 / 8_000_000) - 1 = 3\<close>.
\<close>

theorem clock_divisor_counterexample:
  "fst (OpenBitBabbler (mock_env open_reads) 8000000 1 world0) = (Some mock_session, None) \<and>
   last (bulk_writes (trace (snd (OpenBitBabbler (mock_env open_reads) 8000000 1 world0)))) =
     [0x8A, 0x97, 0x8D, 0x80, 0x00, 0x0B, 0x82, 0x00, 0x00, 0x86, 2, 0, 0x85] \<and>
   spec_clock_divisor 8000000 = 3"
  by (simp add: open_mock0 mock_open_world_def spec_clock_divisor_def round_def)

subsection \<open>ReadRandom on an empty buffer\<close>

text \<open>
  Claim C10.  \<open>ReadRandom\<close> called with a zero-length buffer returns \<open>(0, nil)\<close> at once:
  the world (the log of transfers and the transfer counters) is the one it was given,
  so no MPSSE command was written and no bulk transfer was made, and the buffer is
  returned as it was.  This holds for every bound on the number of reads.
\<close>

theorem ReadRandom_empty_buffer:
  "ReadRandom fuel e s [] w = Some (Returns (0, None, []), w)"
  by (simp add: ReadRandom_def)

subsection \<open>The initialization sequence\<close>










lemma reads_steps:
  assumes "list_all (\<lambda>ev. \<exists>d r. ev = BulkRead n d r) xs"
  shows "list_all (\<lambda>ev. init_step ev = init_step (BulkRead n [] None)) xs"
  using assms by (auto simp: list_all_iff)


















































subsection \<open>ReadBits on a bit count that is not positive\<close>

lemma sdiv_pos: "0 \<le> a \<Longrightarrow> 0 < b \<Longrightarrow> (a :: int) sdiv b = a div b"
  by (simp add: signed_divide_int_def sgn_if)

lemma smod_pos: "0 \<le> a \<Longrightarrow> 0 < b \<Longrightarrow> (a :: int) smod b = a mod b"
  by (simp add: signed_modulo_int_def sgn_if)

text \<open>
  Claim C7.  For every bit count \<open>bits \<le> 0\<close>, each of \<open>pseudorng.ReadBits\<close>,
  \<open>truerng.ReadBits\<close> and \<open>bbusb.ReadBitsOnce\<close> returns its argument error (\<open>bitCount
  must be positive\<close>, \<open>bits must be > 0\<close>) and the world it was given: the entropy
  reader was not called, no port was enumerated or opened, no USB object was acquired
  and no transfer was made.  This holds for every environment and every bound on the
  loops.
\<close>

theorem ReadBits_nonpositive:
  assumes "bits \<le> 0"
  shows "pseudorng_ReadBits re bits rw = (Returns (Inl (ErrNew ''bitCount must be positive'')), rw) \<and>
         truerng_ReadBits fuel se bits sw = Some (Returns (Inl (ErrNew ''bitCount must be positive'')), sw) \<and>
         ReadBitsOnce fuel' ue bits bitrate latencyMs uw = Some (Returns (Inl (ErrNew ''bits must be > 0'')), uw)"
  using assms by (simp add: pseudorng_ReadBits_def truerng_ReadBits_def ReadBitsOnce_def)

theorem ReadBits_nonpositive_witness:
  "(-3 :: int) \<le> 0 \<and>
   pseudorng_ReadBits (mock_rand [0xFF]) (-3) rand_world0
     = (Returns (Inl (ErrNew ''bitCount must be positive'')), rand_world0) \<and>
   truerng_ReadBits 5 (mock_serial [0xFF]) (-3) serial_world0
     = Some (Returns (Inl (ErrNew ''bitCount must be positive'')), serial_world0) \<and>
   ReadBitsOnce 5 (mock_env open_reads) (-3) 2500000 1 world0
     = Some (Returns (Inl (ErrNew ''bits must be > 0'')), world0)"
  using ReadBits_nonpositive [of "-3" "mock_rand [0xFF]" rand_world0 5 "mock_serial [0xFF]" serial_world0
     5 "mock_env open_reads" 2500000 1 world0]
  by simp

subsection \<open>The padding of the last byte\<close>

lemma int64_small: "- (2 ^ 63) \<le> x \<Longrightarrow> x < 2 ^ 63 \<Longrightarrow> int64 x = x"
  by (simp add: int64_def)

lemma rr: "ReadRandom (Suc 0) (mock_env (open_reads @ [([0x32, 0x60, 0xFF], None)])) mock_session [0] (mock_open_world 11 1)
   = Some (Returns (1, None, [0xFF]),
       (mock_open_world 11 1)\<lparr>trace := trace (mock_open_world 11 1) @
          [BulkWrite [0x20, 0, 0, 0x87] None, BulkRead 128 [0x32, 0x60, 0xFF] None],
          n_wr := 4, n_rd := 5\<rparr>)"
  by (simp add: ReadRandom_def outEp_Write_def inEp_Read_def mock_env_def mock_session_def mock_open_world_def
     open_reads_def roundUpToMaxPacket_def sdiv_pos smod_pos Let_def usb_consts)

text \<open>
  Claim C1 fails for \<open>bbusb.ReadBitsOnce\<close>.  For 4 bits, on the test device that
  delivers the byte \<open>0xFF\<close>, \<open>ReadBitsOnce\<close> returns the one byte \<open>0x0F\<close>: the mask
  \<open>0xFF >> excess\<close> clears the high bits of the last byte and keeps the low ones, so
  the low 4 bits are not zero.  \<open>pseudorng.ReadBits\<close> on the same byte returns \<open>0xF0\<close>,
  as the contract asks.
\<close>

theorem ReadBitsOnce_keeps_low_bits:
  "map_option fst
     (ReadBitsOnce 1 (mock_env (open_reads @ [([0x32, 0x60, 0xFF], None)])) 4 2500000 1 world0)
     = Some (Returns (Inr [0x0F])) \<and>
   \<not> spec_zero_padded 4 [0x0F] \<and>
   fst (pseudorng_ReadBits (mock_rand [0xFF]) 4 rand_world0) = Returns (Inr [0xF0]) \<and>
   spec_zero_padded 4 [0xF0]"
  by (simp add: ReadBitsOnce_def open_mock rr int64_small sdiv_pos smod_pos and_last_def
      pseudorng_ReadBits_def crand_Read_def mock_rand_def rand_world0_def Let_def
      spec_zero_padded_def)

subsection \<open>The synchronization check\<close>

lemma inEp_Read_eq:
  "inEp_Read e buf w =
     ((int (length (take (length buf) (fst (rd_resp e (n_rd w))))),
       take (length buf) (fst (rd_resp e (n_rd w)))
         @ drop (length (take (length buf) (fst (rd_resp e (n_rd w))))) buf,
       snd (rd_resp e (n_rd w))),
      w\<lparr>trace := trace w @ [BulkRead (length buf) (take (length buf) (fst (rd_resp e (n_rd w))))
                                 (snd (rd_resp e (n_rd w)))],
        n_rd := Suc (n_rd w)\<rparr>)"
  by (simp add: inEp_Read_def Let_def split: prod.splits)

lemma reply_cond:
  assumes "4 < length buf"
  shows "(int (length (take (length buf) d)) = 4 \<and>
          (take (length buf) d @ drop (length (take (length buf) d)) buf) ! 2 = 0xFA \<and>
          (take (length buf) d @ drop (length (take (length buf) d)) buf) ! 3 = cmd)
         = sync_reply cmd (d, r)"
proof (cases "length d = 4")
  case True
  then have "take (length buf) d = d" using assms by simp
  then show ?thesis using True by (simp add: sync_reply_def nth_append)
next
  case False
  then have "length (take (length buf) d) \<noteq> 4" using assms by (simp add: min_def)
  then show ?thesis using False by (simp add: sync_reply_def)
qed

lemma sync_loop_ok:
  assumes "4 < length buf"
  shows "fst (sync_loop k e cmd buf w) = (\<exists>i<k. sync_reply cmd (rd_resp e (n_rd w + i)))"
  using assms
proof (induction k arbitrary: buf w)
  case 0
  show ?case by simp
next
  case (Suc k)
  define d where "d = fst (rd_resp e (n_rd w))"
  define buf' where "buf' = take (length buf) d @ drop (length (take (length buf) d)) buf"
  define w1 where "w1 = w\<lparr>trace := trace w @ [BulkRead (length buf) (take (length buf) d)
                                 (snd (rd_resp e (n_rd w)))], n_rd := Suc (n_rd w)\<rparr>"
  define C where "C = (int (length (take (length buf) d)) = 4 \<and> buf' ! 2 = 0xFA \<and> buf' ! 3 = cmd)"
  have step: "sync_loop (Suc k) e cmd buf w = (if C then (True, w1) else sync_loop k e cmd buf' w1)"
    unfolding C_def buf'_def w1_def d_def by (simp add: inEp_Read_eq del: length_take)
  have c: "C = sync_reply cmd (rd_resp e (n_rd w))"
    unfolding C_def buf'_def d_def
    using reply_cond [OF Suc.prems, of "fst (rd_resp e (n_rd w))" cmd "snd (rd_resp e (n_rd w))"]
    by simp
  have l: "4 < length buf'" using Suc.prems by (simp add: buf'_def)
  have "fst (sync_loop k e cmd buf' w1) = (\<exists>i<k. sync_reply cmd (rd_resp e (n_rd w1 + i)))"
    using l by (rule Suc.IH)
  then have ih: "fst (sync_loop k e cmd buf' w1) = (\<exists>i<k. sync_reply cmd (rd_resp e (Suc (n_rd w) + i)))"
    by (simp add: w1_def)
  show ?case
  proof (cases C)
    case True
    then have "\<exists>i<Suc k. sync_reply cmd (rd_resp e (n_rd w + i))"
      using c by (intro exI [of _ 0]) simp
    then show ?thesis using step True by simp
  next
    case False
    then have "fst (sync_loop (Suc k) e cmd buf w) = fst (sync_loop k e cmd buf' w1)"
      using step by simp
    also have "\<dots> = (\<exists>i<k. sync_reply cmd (rd_resp e (Suc (n_rd w) + i)))" by (rule ih)
    also have "\<dots> = (\<exists>i<Suc k. sync_reply cmd (rd_resp e (n_rd w + i)))"
      using False c by (simp add: Ex_less_Suc2)
    finally show ?thesis .
  qed
qed

lemma sync_loop_counts:
  "n_rd (snd (sync_loop k e cmd buf w)) \<le> n_rd w + k \<and> n_wr (snd (sync_loop k e cmd buf w)) = n_wr w"
proof (induction k arbitrary: buf w)
  case 0
  show ?case by simp
next
  case (Suc k)
  let ?d = "fst (rd_resp e (n_rd w))"
  let ?buf' = "take (length buf) ?d @ drop (length (take (length buf) ?d)) buf"
  let ?w1 = "w\<lparr>trace := trace w @ [BulkRead (length buf) (take (length buf) ?d)
                                 (snd (rd_resp e (n_rd w)))], n_rd := Suc (n_rd w)\<rparr>"
  from Suc.IH [of ?buf' ?w1] show ?case
    by (simp add: inEp_Read_eq del: length_take)
qed

lemma checkSync_ok:
  "fst (checkSync e s cmd w) =
     (wr_resp e (n_wr w) = None \<and> (\<exists>i<10. sync_reply cmd (rd_resp e (n_rd w + i))))"
proof (cases "wr_resp e (n_wr w)")
  case (Some err)
  then show ?thesis by (simp add: checkSync_def outEp_Write_def Let_def)
next
  case None
  let ?w1 = "w\<lparr>trace := trace w @ [BulkWrite [cmd, mpsseSendImmediate] None], n_wr := Suc (n_wr w)\<rparr>"
  have "fst (checkSync e s cmd w) = fst (sync_loop 10 e cmd (replicate 512 0) ?w1)"
    using None by (simp add: checkSync_def outEp_Write_def Let_def)
  also have "\<dots> = (\<exists>i<10. sync_reply cmd (rd_resp e (n_rd ?w1 + i)))"
    by (rule sync_loop_ok) simp
  finally show ?thesis using None by simp
qed

lemma checkSync_counts:
  "n_rd (snd (checkSync e s cmd w)) \<le> n_rd w + 10 \<and> n_wr (snd (checkSync e s cmd w)) = Suc (n_wr w)"
proof (cases "wr_resp e (n_wr w)")
  case (Some err)
  then show ?thesis by (simp add: checkSync_def outEp_Write_def Let_def)
next
  case None
  let ?w1 = "w\<lparr>trace := trace w @ [BulkWrite [cmd, mpsseSendImmediate] None], n_wr := Suc (n_wr w)\<rparr>"
  have "snd (checkSync e s cmd w) = snd (sync_loop 10 e cmd (replicate 512 0) ?w1)"
    using None by (simp add: checkSync_def outEp_Write_def Let_def)
  then show ?thesis using sync_loop_counts [of 10 e cmd "replicate 512 0" ?w1] by simp
qed


lemma sync_AA_AB_ok:
  "fst (sync_AA_AB e s w) =
     (fst (checkSync e s 0xAA w) \<and> fst (checkSync e s 0xAB (snd (checkSync e s 0xAA w))))"
  by (auto simp: sync_AA_AB_def split: prod.splits bool.splits)

text \<open>
  Claim C5.  Let \<open>OpenBitBabbler\<close> have acquired the USB resources and made the control
  transfers, and let \<open>ok1\<close> and \<open>ok2\<close> be the outcomes of a first and a second pass of
  the two-stage sequence.  A check of a command writes it once and succeeds exactly
  when the write succeeds and one of the next 10 reads answers 4 bytes, the third
  \<open>0xFA\<close> and the fourth the command; it never reads more than 10 times.  A pass is
  the check of \<open>0xAA\<close> and then, only if it succeeded, the check of \<open>0xAB\<close>.  The
  synchronization runs the first pass and, only if it failed, the second, and no
  third.  If both passes fail, \<open>OpenBitBabbler\<close> closes the session and returns the
  error \<open>MPSSE sync failed\<close>; if one of them succeeds it goes on from there with the
  programming command and returns the session once that command is written.
\<close>

theorem sync_check_retried_once:
  assumes usb: "OpenBitBabbler_usb e w = (Inr s, w1)"
      and ctl: "OpenBitBabbler_controls e s (if latencyMs = 0 then 1 else latencyMs) w1 = (None, w2)"
      and p1: "sync_AA_AB e s w2 = (ok1, w3)"
      and p2: "sync_AA_AB e s w3 = (ok2, w4)"
  shows "(\<forall>cmd w. fst (checkSync e s cmd w) =
                    (wr_resp e (n_wr w) = None \<and>
                     (\<exists>i<10. sync_reply cmd (rd_resp e (n_rd w + i)))) \<and>
                  n_rd (snd (checkSync e s cmd w)) \<le> n_rd w + 10 \<and>
                  n_wr (snd (checkSync e s cmd w)) = Suc (n_wr w)) \<and>
         ok1 = (fst (checkSync e s 0xAA w2) \<and>
                fst (checkSync e s 0xAB (snd (checkSync e s 0xAA w2)))) \<and>
         ok2 = (fst (checkSync e s 0xAA w3) \<and>
                fst (checkSync e s 0xAB (snd (checkSync e s 0xAA w3)))) \<and>
         OpenBitBabbler_sync e s w2 = (if ok1 then (True, w3) else (ok2, w4)) \<and>
         OpenBitBabbler e bitrate latencyMs w =
           (if ok1 \<or> ok2 then
              (case step_program e s (if bitrate = 0 then 2500000 else bitrate)
                      (if ok1 then w3 else w4) of
                 (Some err, w') \<Rightarrow> ((None, Some err), Close (Some s) w')
               | (None, w') \<Rightarrow> ((Some s, None), w'))
            else ((None, Some (ErrNew ''MPSSE sync failed'')), Close (Some s) w4)) \<and>
         ((ok1 \<or> ok2) \<and> wr_resp e (n_wr (if ok1 then w3 else w4)) = None \<longrightarrow>
            fst (OpenBitBabbler e bitrate latencyMs w) = (Some s, None))"
proof -
  define b where "b = (if bitrate = 0 then 2500000 else bitrate)"
  have sy: "OpenBitBabbler_sync e s w2 = (if ok1 then (True, w3) else (ok2, w4))"
    using p1 p2 by (simp add: OpenBitBabbler_sync_def)
  have res: "OpenBitBabbler e bitrate latencyMs w =
           (if ok1 \<or> ok2 then
              (case step_program e s b (if ok1 then w3 else w4) of
                 (Some err, w') \<Rightarrow> ((None, Some err), Close (Some s) w')
               | (None, w') \<Rightarrow> ((Some s, None), w'))
            else ((None, Some (ErrNew ''MPSSE sync failed'')), Close (Some s) w4))"
    using usb ctl sy
    by (simp add: OpenBitBabbler_def Let_def step_program_def b_def
        split: prod.split option.split)
  have opens: "fst (OpenBitBabbler e bitrate latencyMs w) = (Some s, None)"
    if "ok1 \<or> ok2" "wr_resp e (n_wr (if ok1 then w3 else w4)) = None"
    using that unfolding res by (simp add: step_program_def Let_def outEp_Write_def)
  have ok1: "ok1 = (fst (checkSync e s 0xAA w2) \<and>
                fst (checkSync e s 0xAB (snd (checkSync e s 0xAA w2))))"
    using sync_AA_AB_ok [of e s w2] p1 by simp
  have ok2: "ok2 = (fst (checkSync e s 0xAA w3) \<and>
                fst (checkSync e s 0xAB (snd (checkSync e s 0xAA w3))))"
    using sync_AA_AB_ok [of e s w3] p2 by simp
  have cs: "\<forall>cmd w. fst (checkSync e s cmd w) =
                    (wr_resp e (n_wr w) = None \<and>
                     (\<exists>i<10. sync_reply cmd (rd_resp e (n_rd w + i)))) \<and>
                  n_rd (snd (checkSync e s cmd w)) \<le> n_rd w + 10 \<and>
                  n_wr (snd (checkSync e s cmd w)) = Suc (n_wr w)"
    using checkSync_ok checkSync_counts by blast
  from cs ok1 ok2 sy res opens show ?thesis unfolding b_def by blast
qed

lemma replicate_10: "replicate 10 x = [x, x, x, x, x, x, x, x, x, x]"
  by (simp add: numeral_eq_Suc)

lemma retry_usb:
  "OpenBitBabbler_usb (mock_env retry_reads) world0 = (Inr mock_session, acquired_world)"
  by (simp add: usb_defs usb_consts mock_env_def world0_def mock_session_def acquired_world_def)

lemma retry_controls:
  "OpenBitBabbler_controls (mock_env retry_reads) mock_session 1 acquired_world = (None, controls_world)"
  by (simp add: usb_defs usb_consts purge_loop_numeral mock_env_def acquired_world_def
      controls_world_def retry_reads_def mock_session_def)

lemma retry_pass1:
  "sync_AA_AB (mock_env retry_reads) mock_session controls_world = (False, pass1_world)"
  by (simp add: usb_defs usb_consts sync_loop_numeral mock_env_def acquired_world_def
      controls_world_def pass1_world_def retry_reads_def mock_session_def replicate_10)

lemma retry_pass2:
  "sync_AA_AB (mock_env retry_reads) mock_session pass1_world = (True, pass2_world)"
  by (simp add: usb_defs usb_consts sync_loop_numeral mock_env_def acquired_world_def
      controls_world_def pass1_world_def pass2_world_def retry_reads_def mock_session_def replicate_10)

theorem sync_check_retried_once_witness:
  "OpenBitBabbler_usb (mock_env retry_reads) world0 = (Inr mock_session, acquired_world) \<and>
   OpenBitBabbler_controls (mock_env retry_reads) mock_session 1 acquired_world
     = (None, controls_world) \<and>
   sync_AA_AB (mock_env retry_reads) mock_session controls_world = (False, pass1_world) \<and>
   sync_AA_AB (mock_env retry_reads) mock_session pass1_world = (True, pass2_world) \<and>
   OpenBitBabbler_sync (mock_env retry_reads) mock_session controls_world = (True, pass2_world) \<and>
   fst (OpenBitBabbler (mock_env retry_reads) 2500000 1 world0) = (Some mock_session, None)"
proof -
  have ctl: "OpenBitBabbler_controls (mock_env retry_reads) mock_session
               (if (1 :: byte) = 0 then 1 else 1) acquired_world = (None, controls_world)"
    using retry_controls by simp
  have wr: "wr_resp (mock_env retry_reads) (n_wr pass2_world) = None"
    by (simp add: mock_env_def)
  note th = sync_check_retried_once [OF retry_usb ctl retry_pass1 retry_pass2, of 2500000]
  from th [THEN conjunct2, THEN conjunct2, THEN conjunct2, THEN conjunct1]
  have sy: "OpenBitBabbler_sync (mock_env retry_reads) mock_session controls_world
              = (True, pass2_world)"
    by simp
  from th [THEN conjunct2, THEN conjunct2, THEN conjunct2, THEN conjunct2, THEN conjunct2] wr
  have "fst (OpenBitBabbler (mock_env retry_reads) 2500000 1 world0) = (Some mock_session, None)"
    by simp
  with sy have "OpenBitBabbler_sync (mock_env retry_reads) mock_session controls_world
              = (True, pass2_world) \<and>
     fst (OpenBitBabbler (mock_env retry_reads) 2500000 1 world0) = (Some mock_session, None)"
    by simp
  then show ?thesis using retry_usb retry_controls retry_pass1 retry_pass2 by simp
qed

subsection \<open>A read error in a collection loop\<close>

lemma error_free_note_cancel: "error_free (note_cancel sc k p tr) = error_free tr"
  by (auto simp: note_cancel_def error_free_def)

lemma error_free_append: "error_free (xs @ ys) = (error_free xs \<and> error_free ys)"
  by (auto simp: error_free_def)

lemma error_free_basic:
  "error_free [ReadStart]" "error_free [ReadEnd None, OnBatch b]" "error_free []"
  by (simp_all add: error_free_def)

lemma error_free_halts: "error_free tr \<Longrightarrow> halts_at_error r tr"
  by (auto simp: error_free_def halts_at_error_def)

lemma error_last_halts: "error_free tr \<Longrightarrow> halts_at_error (Returns err) (tr @ [ReadEnd (Some err)])"
proof -
  assume ef: "error_free tr"
  show ?thesis
    unfolding halts_at_error_def
  proof (intro allI impI)
    fix pre e post
    assume eq: "tr @ [ReadEnd (Some err)] = pre @ ReadEnd (Some e) # post"
    show "post = [] \<and> Returns err = Returns e"
    proof (cases post rule: rev_cases)
      case Nil
      then show ?thesis using eq by simp
    next
      case (snoc ys y)
      then have "tr = pre @ ReadEnd (Some e) # ys" using eq by simp
      then have "ReadEnd (Some e) \<in> set tr" by simp
      then show ?thesis using ef by (simp add: error_free_def)
    qed
  qed
qed

lemma collect_loop_halts:
  assumes "collect_loop f rd sc k tr w = Some (r, tr', w')" and "error_free tr"
  shows "halts_at_error r tr'"
  using assms
proof (induction f arbitrary: k tr w)
  case 0
  then show ?case by simp
next
  case (Suc f)
  define tr1 where "tr1 = note_cancel sc k AtTop tr"
  have ef1: "error_free tr1" using Suc.prems(2) by (simp add: tr1_def error_free_note_cancel)
  show ?case
  proof (cases "cancelled_by sc k AtTop")
    case True
    then have "r = Returns ErrCanceled" "tr' = tr1" using Suc.prems(1) by (simp_all add: tr1_def Let_def)
    then show ?thesis using ef1 by (simp add: error_free_halts)
  next
    case False
    note nc = this
    show ?thesis
    proof (cases "rd w")
      case None
      then show ?thesis using Suc.prems(1) nc by (simp add: Let_def)
    next
      case (Some p)
      obtain o1 w1 where p: "p = (o1, w1)" by force
      define tr2 where "tr2 = note_cancel sc k InRead (tr1 @ [ReadStart])"
      have ef2: "error_free tr2"
        using ef1 by (simp add: tr2_def error_free_note_cancel error_free_append error_free_basic)
      show ?thesis
      proof (cases o1)
        case (Panics msg)
        then have "tr' = tr2" using Suc.prems(1) nc Some p by (simp add: Let_def tr1_def tr2_def)
        then show ?thesis using ef2 by (simp add: error_free_halts)
      next
        case (Returns x)
        show ?thesis
        proof (cases x)
          case (Inl err)
          then have "r = Returns err" "tr' = tr2 @ [ReadEnd (Some err)]"
            using Suc.prems(1) nc Some p Returns by (simp_all add: Let_def tr1_def tr2_def)
          then show ?thesis using ef2 by (simp add: error_last_halts)
        next
          case (Inr b)
          define tr3 where "tr3 = note_cancel sc k InWait (note_cancel sc k InSend
                                    (tr2 @ [ReadEnd None, OnBatch b]))"
          have ef3: "error_free tr3"
            using ef2 by (simp add: tr3_def error_free_note_cancel error_free_append error_free_basic)
          show ?thesis
          proof (cases "cancelled_by sc k InWait \<and> \<not> tick_first sc k")
            case True
            then have "tr' = tr3"
              using Suc.prems(1) nc Some p Returns Inr
              by (simp add: Let_def tr1_def tr2_def tr3_def)
            then show ?thesis using ef3 by (simp add: error_free_halts)
          next
            case False
            then have "collect_loop f rd sc (Suc k) tr3 w1 = Some (r, tr', w')"
              using Suc.prems(1) nc Some p Returns Inr
              by (auto simp: Let_def tr1_def tr2_def tr3_def)
            from Suc.IH [OF this ef3] show ?thesis .
          qed
        qed
      qed
    qed
  qed
qed

text \<open>
  Claim C3, as the code has it.  In every run of \<open>pseudorng.CollectBitsAtInterval\<close> and
  of \<open>truerng.CollectBitsAtInterval\<close> that returns, a read that failed is the last
  thing the loop did, and its error is what the function returns: no read and no
  \<open>onBatch\<close> follows it.  At every cycle of these loops that is not cancelled at its
  start, a failing read makes the loop return that error at once, in the world the
  read left.  The loop of \<open>bbusb.StartBitCollector\<close> does not halt: when \<open>ReadRandom\<close>
  fails and a receiver takes the result, it sends the error in the \<open>ReadResult\<close> and
  goes on with the next cycle.
\<close>

theorem collection_read_error:
  "(pseudorng_CollectBitsAtInterval fuel re sc bitCount interval nil rw = Some (r, tr, rw')
      \<longrightarrow> halts_at_error r tr) \<and>
   (truerng_CollectBitsAtInterval fuel rfuel se sc bitCount interval nil sw = Some (r2, tr2, sw')
      \<longrightarrow> halts_at_error r2 tr2) \<and>
   (\<not> cancelled_by sc k AtTop \<and> pseudorng_ReadBits re bitCount rw = (Returns (Inl err), rw1)
      \<longrightarrow> collect_loop (Suc f) (\<lambda>w. Some (pseudorng_ReadBits re bitCount w)) sc k tr0 rw
            = Some (Returns err,
                    note_cancel sc k InRead (tr0 @ [ReadStart]) @ [ReadEnd (Some err)], rw1)) \<and>
   (\<not> cancelled_by sc k AtTop \<and>
    truerng_ReadBits rfuel se bitCount sw = Some (Returns (Inl err), sw1)
      \<longrightarrow> collect_loop (Suc f) (truerng_ReadBits rfuel se bitCount) sc k tr0 sw
            = Some (Returns err,
                    note_cancel sc k InRead (tr0 @ [ReadStart]) @ [ReadEnd (Some err)], sw1)) \<and>
   (cancel_at sc = None \<and> receiver sc k \<and> 0 \<le> numBytes \<and>
    ReadRandom rfuel ue s (replicate (nat numBytes) 0) uw = Some (Returns (n, Some err, buf), uw1)
      \<longrightarrow> bb_collect_loop (Suc f) rfuel ue sc s bits numBytes k tr0 uw
            = bb_collect_loop f rfuel ue sc s bits numBytes (Suc k)
                (tr0 @ [ReadStart, ReadEnd (Some err),
                        Sent \<lparr>Timestamp = stamp sc k, BitsRequested = bits,
                              Data = buf, Err = Some err\<rparr>]) uw1)"
proof -
  have ef: "error_free []" by (rule error_free_basic)
  have a: "halts_at_error r tr"
    if "pseudorng_CollectBitsAtInterval fuel re sc bitCount interval nil rw = Some (r, tr, rw')"
    using that collect_loop_halts [OF _ ef]
    by (auto simp: pseudorng_CollectBitsAtInterval_def error_free_halts ef split: if_splits)
  have b: "halts_at_error r2 tr2"
    if "truerng_CollectBitsAtInterval fuel rfuel se sc bitCount interval nil sw = Some (r2, tr2, sw')"
    using that collect_loop_halts [OF _ ef]
    by (auto simp: truerng_CollectBitsAtInterval_def error_free_halts ef split: if_splits)
  have nt: "note_cancel sc k AtTop tr0 = tr0" if "\<not> cancelled_by sc k AtTop"
    using that by (auto simp: note_cancel_def cancelled_by_def)
  have c: "collect_loop (Suc f) (\<lambda>w. Some (pseudorng_ReadBits re bitCount w)) sc k tr0 rw
            = Some (Returns err,
                    note_cancel sc k InRead (tr0 @ [ReadStart]) @ [ReadEnd (Some err)], rw1)"
    if "\<not> cancelled_by sc k AtTop" "pseudorng_ReadBits re bitCount rw = (Returns (Inl err), rw1)"
    using that nt by (simp add: Let_def)
  have d: "collect_loop (Suc f) (truerng_ReadBits rfuel se bitCount) sc k tr0 sw
            = Some (Returns err,
                    note_cancel sc k InRead (tr0 @ [ReadStart]) @ [ReadEnd (Some err)], sw1)"
    if "\<not> cancelled_by sc k AtTop"
       "truerng_ReadBits rfuel se bitCount sw = Some (Returns (Inl err), sw1)"
    using that nt by (simp add: Let_def)
  have e: "bb_collect_loop (Suc f) rfuel ue sc s bits numBytes k tr0 uw
            = bb_collect_loop f rfuel ue sc s bits numBytes (Suc k)
                (tr0 @ [ReadStart, ReadEnd (Some err),
                        Sent \<lparr>Timestamp = stamp sc k, BitsRequested = bits,
                              Data = buf, Err = Some err\<rparr>]) uw1"
    if "cancel_at sc = None" "receiver sc k" "0 \<le> numBytes"
       "ReadRandom rfuel ue s (replicate (nat numBytes) 0) uw = Some (Returns (n, Some err, buf), uw1)"
    using that by (simp add: Let_def note_cancel_def cancelled_by_def)
  from a b c d e show ?thesis by blast
qed

theorem collection_read_error_witness:
  "pseudorng_CollectBitsAtInterval 5 (failing_rand 1 [0xFF]) no_cancel 8 1000 False rand_world0
     = Some (Returns (ErrExt 3),
             [ReadStart, ReadEnd None, OnBatch [0xFF], ReadStart, ReadEnd (Some (ErrExt 3))],
             \<lparr>rtrace = [CrandRead 1, CrandRead 1], n_crand = 2\<rparr>) \<and>
   halts_at_error (Returns (ErrExt 3))
     [ReadStart, ReadEnd None, OnBatch [0xFF], ReadStart, ReadEnd (Some (ErrExt 3))]"
proof -
  have run: "pseudorng_CollectBitsAtInterval 5 (failing_rand 1 [0xFF]) no_cancel 8 1000 False
               rand_world0
     = Some (Returns (ErrExt 3),
             [ReadStart, ReadEnd None, OnBatch [0xFF], ReadStart, ReadEnd (Some (ErrExt 3))],
             \<lparr>rtrace = [CrandRead 1, CrandRead 1], n_crand = 2\<rparr>)"
    by (simp add: pseudorng_CollectBitsAtInterval_def numeral_eq_Suc pseudorng_ReadBits_def
        crand_Read_def failing_rand_def no_cancel_def rand_world0_def note_cancel_def
        cancelled_by_def int64_small sdiv_pos smod_pos Let_def)
  from collection_read_error [THEN conjunct1, rule_format, OF run] run show ?thesis by simp
qed

text \<open>
  Claim C3 as stated fails for \<open>bbusb.StartBitCollector\<close>.  On the test device whose
  first bulk read after opening fails, the collector delivers the error, reads again
  at the next tick and delivers the byte it read; it ends when the context is
  cancelled.
\<close>

theorem StartBitCollector_continues_counterexample:
  "map_option (\<lambda>(r, tr, w). (r, tr))
     (StartBitCollector 2 1
        (mock_env (open_reads @ [([], Some (ErrExt 9)), ([0x32, 0x60, 0xAB], None)]))
        (cancel_in_wait 1 False) 8 1000 2500000 1 world0)
     = Some (Inr (Returns ()),
             [ReadStart, ReadEnd (Some (ErrExt 9)),
              Sent \<lparr>Timestamp = 0, BitsRequested = 8, Data = [0], Err = Some (ErrExt 9)\<rparr>,
              ReadStart, ReadEnd None,
              Sent \<lparr>Timestamp = 1, BitsRequested = 8, Data = [0xAB], Err = None\<rparr>,
              CancelRequested, ChanClosed])"
proof -
  define E where "E = mock_env (open_reads @ [([], Some (ErrExt 9)), ([0x32, 0x60, 0xAB], None)])"
  define W1 where "W1 = (mock_open_world 11 1)\<lparr>trace := trace (mock_open_world 11 1) @
          [BulkWrite [0x20, 0, 0, 0x87] None, BulkRead 128 [] (Some (ErrExt 9))],
          n_wr := 4, n_rd := 5\<rparr>"
  define W2 where "W2 = W1\<lparr>trace := trace W1 @
          [BulkWrite [0x20, 0, 0, 0x87] None, BulkRead 128 [0x32, 0x60, 0xAB] None],
          n_wr := 5, n_rd := 6\<rparr>"
  have o: "OpenBitBabbler E 2500000 1 world0 = ((Some mock_session, None), mock_open_world 11 1)"
    unfolding E_def by (simp add: open_mock)
  have r1: "ReadRandom (Suc 0) E mock_session [0] (mock_open_world 11 1)
              = Some (Returns (0, Some (ErrExt 9), [0]), W1)"
    by (simp add: E_def W1_def ReadRandom_def outEp_Write_def inEp_Read_def mock_env_def
        mock_session_def mock_open_world_def open_reads_def roundUpToMaxPacket_def sdiv_pos
        smod_pos Let_def usb_consts)
  have r2: "ReadRandom (Suc 0) E mock_session [0] W1 = Some (Returns (1, None, [0xAB]), W2)"
    by (simp add: E_def W1_def W2_def ReadRandom_def outEp_Write_def inEp_Read_def mock_env_def
        mock_session_def mock_open_world_def open_reads_def roundUpToMaxPacket_def sdiv_pos
        smod_pos Let_def usb_consts)
  have "StartBitCollector 2 1 E (cancel_in_wait 1 False) 8 1000 2500000 1 world0
     = Some (Inr (Returns ()),
             [ReadStart, ReadEnd (Some (ErrExt 9)),
              Sent \<lparr>Timestamp = 0, BitsRequested = 8, Data = [0], Err = Some (ErrExt 9)\<rparr>,
              ReadStart, ReadEnd None,
              Sent \<lparr>Timestamp = 1, BitsRequested = 8, Data = [0xAB], Err = None\<rparr>,
              CancelRequested, ChanClosed], Close (Some mock_session) W2)"
    by (simp add: StartBitCollector_def o r1 r2 numeral_2_eq_2 sdiv_pos smod_pos int64_small
        Let_def cancel_in_wait_def note_cancel_def cancelled_by_def and_last_def)
  then show ?thesis by (simp add: E_def)
qed

subsection \<open>Cancellation during the wait\<close>

lemma cancel_free_quiet: "cancel_free tr \<Longrightarrow> quiet_after_cancel tr"
  by (auto simp: cancel_free_def quiet_after_cancel_def)

lemma cancel_last_quiet:
  assumes "cancel_free tr"
  shows "quiet_after_cancel (tr @ [CancelRequested])"
  unfolding quiet_after_cancel_def
proof (intro allI impI)
  fix pre post
  assume eq: "tr @ [CancelRequested] = pre @ CancelRequested # post"
  show "\<forall>ev \<in> set post. ev = ChanClosed"
  proof (cases post rule: rev_cases)
    case Nil
    then show ?thesis by simp
  next
    case (snoc ys y)
    then have "tr = pre @ CancelRequested # ys" using eq by simp
    then have "CancelRequested \<in> set tr" by simp
    then show ?thesis using assms by (simp add: cancel_free_def)
  qed
qed

lemma quiet_closed:
  assumes "quiet_after_cancel tr"
  shows "quiet_after_cancel (tr @ [ChanClosed])"
  unfolding quiet_after_cancel_def
proof (intro allI impI)
  fix pre post
  assume eq: "tr @ [ChanClosed] = pre @ CancelRequested # post"
  show "\<forall>ev \<in> set post. ev = ChanClosed"
  proof (cases post rule: rev_cases)
    case Nil
    then show ?thesis by simp
  next
    case (snoc ys y)
    then have tr: "tr = pre @ CancelRequested # ys" and y: "y = ChanClosed" using eq by simp_all
    from assms [unfolded quiet_after_cancel_def, rule_format, OF tr]
    show ?thesis using snoc y by auto
  qed
qed

lemma cancel_free_simps:
  "cancel_free []" "cancel_free (xs @ ys) = (cancel_free xs \<and> cancel_free ys)"
  "cancel_free (x # xs) = (x \<noteq> CancelRequested \<and> cancel_free xs)"
  by (auto simp: cancel_free_def)

lemma note_cancel_other:
  "cancel_at sc = Some (kc, InWait) \<Longrightarrow> p \<noteq> InWait \<or> k \<noteq> kc \<Longrightarrow> note_cancel sc k p tr = tr"
  by (auto simp: note_cancel_def)

lemma note_cancel_wait:
  "cancel_at sc = Some (kc, InWait) \<Longrightarrow> note_cancel sc kc InWait tr = tr @ [CancelRequested]"
  by (simp add: note_cancel_def)

lemma cancelled_by_wait:
  "cancel_at sc = Some (kc, InWait) \<Longrightarrow>
     cancelled_by sc k p = (kc < k \<or> (kc = k \<and> p = InWait))"
  by (cases p) (auto simp: cancelled_by_def)

lemma collect_loop_late:
  assumes c: "cancel_at sc = Some (kc, InWait)" and k: "kc < k"
  shows "collect_loop (Suc f) rd sc k tr w = Some (Returns ErrCanceled, tr, w)"
  using k by (simp add: Let_def cancelled_by_wait [OF c] note_cancel_other [OF c])

lemma collect_loop_late':
  assumes c: "cancel_at sc = Some (kc, InWait)" and k: "kc < k"
    and r: "collect_loop f rd sc k tr w = Some (r, tr', w')"
  shows "tr' = tr \<and> r = Returns ErrCanceled \<and> w' = w"
proof (cases f)
  case 0
  then show ?thesis using r by simp
next
  case (Suc g)
  then show ?thesis using r collect_loop_late [OF c k, of g rd tr w] by simp
qed

lemma collect_loop_quiet:
  assumes c: "cancel_at sc = Some (kc, InWait)"
    and r: "collect_loop f rd sc k tr w = Some (r, tr', w')"
    and k: "k \<le> kc" and cf: "cancel_free tr"
  shows "quiet_after_cancel tr'"
  using r k cf
proof (induction f arbitrary: k tr w)
  case 0
  then show ?case by simp
next
  case (Suc f)
  have top: "\<not> cancelled_by sc k AtTop" using Suc.prems(2) by (simp add: cancelled_by_wait [OF c])
  have n0: "note_cancel sc k p tr = tr" if "p \<noteq> InWait" for p tr
    using that by (simp add: note_cancel_other [OF c])
  show ?case
  proof (cases "rd w")
    case None
    then show ?thesis using Suc.prems(1) top by (simp add: Let_def)
  next
    case (Some p)
    obtain o1 w1 where p: "p = (o1, w1)" by force
    show ?thesis
    proof (cases o1)
      case (Panics msg)
      then have "tr' = tr @ [ReadStart]" using Suc.prems(1) top Some p by (simp add: Let_def n0)
      then show ?thesis using Suc.prems(3) by (simp add: cancel_free_quiet cancel_free_simps)
    next
      case (Returns x)
      show ?thesis
      proof (cases x)
        case (Inl err)
        then have "tr' = tr @ [ReadStart] @ [ReadEnd (Some err)]"
          using Suc.prems(1) top Some p Returns by (simp add: Let_def n0)
        then show ?thesis using Suc.prems(3) by (simp add: cancel_free_quiet cancel_free_simps)
      next
        case (Inr b)
        define tr2 where "tr2 = tr @ [ReadStart] @ [ReadEnd None, OnBatch b]"
        have cf2: "cancel_free tr2" using Suc.prems(3) by (simp add: tr2_def cancel_free_simps)
        have run: "(if cancelled_by sc k InWait \<and> \<not> tick_first sc k
                    then Some (Returns ErrCanceled, note_cancel sc k InWait tr2, w1)
                    else collect_loop f rd sc (Suc k) (note_cancel sc k InWait tr2) w1)
                   = Some (r, tr', w')"
          using Suc.prems(1) top Some p Returns Inr
          by (auto simp: Let_def n0 tr2_def split: if_splits)
        show ?thesis
        proof (cases "k = kc")
          case True
          have nw: "note_cancel sc k InWait tr2 = tr2 @ [CancelRequested]"
            using True by (simp add: note_cancel_wait [OF c])
          have "tr' = tr2 @ [CancelRequested]"
          proof (cases "tick_first sc k")
            case False
            then show ?thesis using run nw True by (simp add: cancelled_by_wait [OF c])
          next
            case tf: True
            then have "collect_loop f rd sc (Suc k) (tr2 @ [CancelRequested]) w1 = Some (r, tr', w')"
              using run nw by simp
            from collect_loop_late' [OF c _ this] True show ?thesis by simp
          qed
          then show ?thesis using cf2 by (simp add: cancel_last_quiet)
        next
          case False
          then have lt: "k < kc" using Suc.prems(2) by simp
          have nw: "note_cancel sc k InWait tr2 = tr2"
            using False by (simp add: note_cancel_other [OF c])
          have "collect_loop f rd sc (Suc k) tr2 w1 = Some (r, tr', w')"
            using run nw lt by (simp add: cancelled_by_wait [OF c])
          from Suc.IH [OF this _ cf2] lt show ?thesis by simp
        qed
      qed
    qed
  qed
qed

lemma bb_collect_loop_late:
  assumes c: "cancel_at sc = Some (kc, InWait)" and k: "kc < k"
  shows "bb_collect_loop (Suc f) rfuel e sc s bits numBytes k tr w = Some (Returns (), tr, w)"
  using k by (simp add: Let_def cancelled_by_wait [OF c] note_cancel_other [OF c])

lemma bb_collect_loop_late':
  assumes c: "cancel_at sc = Some (kc, InWait)" and k: "kc < k"
    and r: "bb_collect_loop f rfuel e sc s bits numBytes k tr w = Some (r, tr', w')"
  shows "tr' = tr \<and> r = Returns () \<and> w' = w"
proof (cases f)
  case 0
  then show ?thesis using r by simp
next
  case (Suc g)
  then show ?thesis using r bb_collect_loop_late [OF c k, of g rfuel e s bits numBytes tr w] by simp
qed

lemma bb_step:
  assumes c: "cancel_at sc = Some (kc, InWait)" and k: "k \<le> kc"
    and r: "bb_collect_loop (Suc f) rfuel e sc s bits numBytes k tr w = Some (r, tr', w')"
  shows "tr' = tr \<or> tr' = tr @ [ReadStart] \<or> (\<exists>err. tr' = tr @ [ReadStart, ReadEnd err]) \<or>
         (\<exists>err res w1.
            (k = kc \<and> tr' = tr @ [ReadStart, ReadEnd err, Sent res, CancelRequested]) \<or>
            (k < kc \<and> bb_collect_loop f rfuel e sc s bits numBytes (Suc k)
                        (tr @ [ReadStart, ReadEnd err, Sent res]) w1 = Some (r, tr', w')))"
proof -
  have top: "\<not> cancelled_by sc k AtTop" using k by (simp add: cancelled_by_wait [OF c])
  have snd: "\<not> cancelled_by sc k InSend" using k by (simp add: cancelled_by_wait [OF c])
  have n0: "note_cancel sc k p tr = tr" if "p \<noteq> InWait" for p tr
    using that by (simp add: note_cancel_other [OF c])
  show ?thesis
  proof (cases "k = kc")
    case True
    have n0': "note_cancel sc kc p tr = tr" if "p \<noteq> InWait" for p tr
      using that by (simp add: note_cancel_other [OF c])
    have nw: "note_cancel sc kc InWait tr = tr @ [CancelRequested]" for tr
      by (simp add: note_cancel_wait [OF c])
    have late: "bb_collect_loop f rfuel e sc s bits numBytes (Suc kc) t v = Some (r, tr', w')
                  \<Longrightarrow> tr' = t" for t v
      using bb_collect_loop_late' [OF c, of "Suc kc" f rfuel e s bits numBytes t v r tr' w']
      by simp
    have cb: "\<not> cancelled_by sc kc AtTop" "\<not> cancelled_by sc kc InSend"
      "cancelled_by sc kc InWait"
      by (simp_all add: cancelled_by_wait [OF c])
    show ?thesis
      using r [unfolded True] unfolding True
      by (auto simp: Let_def n0' nw cb dest!: late
          split: option.splits outcome.splits prod.splits if_splits)
  next
    case False
    then have lt: "k < kc" using k by simp
    have nw: "note_cancel sc k InWait tr = tr" for tr
      using False by (simp add: note_cancel_other [OF c])
    have w: "\<not> cancelled_by sc k InWait" using lt by (simp add: cancelled_by_wait [OF c])
    show ?thesis
      using r top snd lt w
      by (auto simp: Let_def n0 nw split: option.splits outcome.splits prod.splits if_splits)
  qed
qed

lemma bb_collect_loop_quiet:
  assumes c: "cancel_at sc = Some (kc, InWait)"
    and r: "bb_collect_loop f rfuel e sc s bits numBytes k tr w = Some (r, tr', w')"
    and k: "k \<le> kc" and cf: "cancel_free tr"
  shows "quiet_after_cancel tr'"
  using r k cf
proof (induction f arbitrary: k tr w)
  case 0
  then show ?case by simp
next
  case (Suc f)
  from bb_step [OF c Suc.prems(2) Suc.prems(1)]
  consider "tr' = tr" | "tr' = tr @ [ReadStart]" | err where "tr' = tr @ [ReadStart, ReadEnd err]"
    | err res where "k = kc" "tr' = tr @ [ReadStart, ReadEnd err, Sent res, CancelRequested]"
    | err res w1 where "k < kc"
        "bb_collect_loop f rfuel e sc s bits numBytes (Suc k)
           (tr @ [ReadStart, ReadEnd err, Sent res]) w1 = Some (r, tr', w')"
    by blast
  then show ?case
  proof cases
    case 1
    then show ?thesis using Suc.prems(3) by (simp add: cancel_free_quiet)
  next
    case 2
    then show ?thesis using Suc.prems(3) by (simp add: cancel_free_quiet cancel_free_simps)
  next
    case 3
    then show ?thesis using Suc.prems(3) by (simp add: cancel_free_quiet cancel_free_simps)
  next
    case 4
    have "cancel_free (tr @ [ReadStart, ReadEnd err, Sent res])"
      using Suc.prems(3) by (simp add: cancel_free_simps)
    from cancel_last_quiet [OF this] show ?thesis using 4(2) by simp
  next
    case 5
    have cf': "cancel_free (tr @ [ReadStart, ReadEnd err, Sent res])"
      using Suc.prems(3) by (simp add: cancel_free_simps)
    from Suc.IH [OF 5(2) _ cf'] 5(1) show ?thesis by simp
  qed
qed

lemma collect_wait_step:
  assumes c: "cancel_at sc = Some (kc, InWait)" and rd: "rd w = Some (Returns (Inr b), w1)"
  shows "collect_loop (Suc (Suc f)) rd sc kc tr0 w
           = Some (Returns ErrCanceled, tr0 @ [ReadStart, ReadEnd None, OnBatch b, CancelRequested], w1)"
proof -
  have n0: "note_cancel sc kc p tr = tr" if "p \<noteq> InWait" for p tr
    using that by (simp add: note_cancel_other [OF c])
  have nw: "note_cancel sc kc InWait tr = tr @ [CancelRequested]" for tr
    by (simp add: note_cancel_wait [OF c])
  have cb: "\<not> cancelled_by sc kc AtTop" "cancelled_by sc kc InWait"
    by (simp_all add: cancelled_by_wait [OF c])
  have late: "collect_loop (Suc f) rd sc (Suc kc) t v = Some (Returns ErrCanceled, t, v)" for t v
    using collect_loop_late [OF c, of "Suc kc"] by simp
  show ?thesis
    apply (subst collect_loop.simps(2))
    using rd
    by (auto simp: Let_def n0 nw cb late simp del: collect_loop.simps)
qed

lemma bb_wait_step:
  assumes c: "cancel_at sc = Some (kc, InWait)" and rc: "receiver sc kc" and nb: "0 \<le> numBytes"
    and rr: "ReadRandom rfuel ue s (replicate (nat numBytes) 0) uw = Some (Returns (n, err, buf), uw1)"
  shows "\<exists>d. bb_collect_loop (Suc (Suc f)) rfuel ue sc s bits numBytes kc tr0 uw
            = Some (Returns (),
                    tr0 @ [ReadStart, ReadEnd err,
                           Sent \<lparr>Timestamp = stamp sc kc, BitsRequested = bits,
                                 Data = d, Err = err\<rparr>,
                           CancelRequested], uw1)"
proof -
  have n0: "note_cancel sc kc p tr = tr" if "p \<noteq> InWait" for p tr
    using that by (simp add: note_cancel_other [OF c])
  have nw: "note_cancel sc kc InWait tr = tr @ [CancelRequested]" for tr
    by (simp add: note_cancel_wait [OF c])
  have cb: "\<not> cancelled_by sc kc AtTop" "\<not> cancelled_by sc kc InSend"
    "cancelled_by sc kc InWait"
    by (simp_all add: cancelled_by_wait [OF c])
  have late: "bb_collect_loop (Suc f) rfuel ue sc s bits numBytes (Suc kc) t v
                = Some (Returns (), t, v)" for t v
    using bb_collect_loop_late [OF c, of "Suc kc"] by simp
  define buf1 where "buf1 = (if err = None \<and> n < numBytes then take (nat n) buf else buf)"
  define d where "d = (if err = None \<and> bits smod 8 \<noteq> 0 \<and> length buf1 > 0
      then buf1[length buf1 - 1 := (buf1 ! (length buf1 - 1)) AND drop_bit (nat (8 - bits smod 8)) 0xFF]
      else buf1)"
  have m: "(if err = None \<and> bits smod 8 \<noteq> 0 \<and> length buf1 > 0
            then and_last buf1 (drop_bit (nat (8 - (bits smod 8))) 0xFF)
            else Returns buf1) = Returns d"
    by (simp add: d_def and_last_def)
  have nn: "\<not> numBytes < 0" using nb by simp
  have "bb_collect_loop (Suc (Suc f)) rfuel ue sc s bits numBytes kc tr0 uw
            = Some (Returns (),
                    tr0 @ [ReadStart, ReadEnd err,
                           Sent \<lparr>Timestamp = stamp sc kc, BitsRequested = bits,
                                 Data = d, Err = err\<rparr>,
                           CancelRequested], uw1)"
    apply (subst bb_collect_loop.simps(2))
    unfolding Let_def n0 [of AtTop, simplified] n0 [of InRead, simplified]
      n0 [of InSend, simplified] nw rr option.case outcome.case prod.case
      buf1_def [symmetric] m
    using cb rc nn late by (simp del: bb_collect_loop.simps)
  then show ?thesis by blast
qed

lemma StartBitCollector_quiet:
  assumes c: "cancel_at sc = Some (kc, InWait)"
    and r: "StartBitCollector fuel rfuel ue sc bits interval bitrate latencyMs uw = Some (r3, tr3, uw')"
  shows "quiet_after_cancel tr3"
proof -
  have cf: "cancel_free []" by (simp add: cancel_free_simps)
  have q0: "quiet_after_cancel []" using cf by (rule cancel_free_quiet)
  have n0: "note_cancel sc 0 AtTop [] = []" by (simp add: note_cancel_other [OF c])
  have qc: "quiet_after_cancel [ChanClosed]" using quiet_closed [OF q0] by simp
  show ?thesis
  proof (cases "bits \<le> 0 \<or> interval \<le> 0")
    case True
    then have "tr3 = []" using r by (auto simp: StartBitCollector_def split: if_splits)
    then show ?thesis using q0 by simp
  next
    case False
    obtain so eo w1 where o: "OpenBitBabbler ue bitrate latencyMs uw = ((so, eo), w1)"
      by (metis surj_pair)
    show ?thesis
    proof (cases eo)
      case (Some err)
      then have "tr3 = []" using r False o by (cases so) (simp_all add: StartBitCollector_def)
      then show ?thesis using q0 by simp
    next
      case None
      show ?thesis
      proof (cases so)
        case N: None
        then have "tr3 = [ChanClosed]"
          using r False o None by (auto simp: StartBitCollector_def Let_def n0 split: if_splits)
        then show ?thesis using qc by simp
      next
        case (Some s)
        define nb where "nb = int64 (bits + 7) sdiv 8"
        from r False o None Some obtain r' tr' w' where
          l: "bb_collect_loop fuel rfuel ue sc s bits nb 0 [] w1 = Some (r', tr', w')"
          and t: "tr3 = tr' @ [ChanClosed]"
          by (auto simp: StartBitCollector_def Let_def nb_def split: option.splits)
        from bb_collect_loop_quiet [OF c l _ cf] have "quiet_after_cancel tr'" by simp
        then show ?thesis using t by (simp add: quiet_closed)
      qed
    qed
  qed
qed

text \<open>
  Claim C8.  Let \<open>cancel\<close> be called while cycle \<open>kc\<close> of a collection loop is in its
  wait for the tick.  In every run of the three loops that returns, nothing follows
  the request in the log but the closing of the channel: no read is issued and
  nothing is delivered, neither to \<open>onBatch\<close> nor on the channel.  And the loop does
  return: from cycle \<open>kc\<close> on, once the read of that cycle has come back (and, for
  \<open>StartBitCollector\<close>, its result was taken), two rounds of the loop are enough for
  it to end, with the cancellation error for the two \<open>CollectBitsAtInterval\<close>, in the
  world the read of cycle \<open>kc\<close> left; this holds whether \<open>select\<close> picks the
  cancellation or the tick that is ready at the same time.
\<close>

theorem cancel_during_wait:
  assumes c: "cancel_at sc = Some (kc, InWait)"
  shows
   "(pseudorng_CollectBitsAtInterval fuel re sc bitCount interval nil rw = Some (r, tr, rw')
       \<longrightarrow> quiet_after_cancel tr) \<and>
    (truerng_CollectBitsAtInterval fuel rfuel se sc bitCount interval nil sw = Some (r2, tr2, sw')
       \<longrightarrow> quiet_after_cancel tr2) \<and>
    (StartBitCollector fuel rfuel ue sc bits interval bitrate latencyMs uw = Some (r3, tr3, uw')
       \<longrightarrow> quiet_after_cancel tr3) \<and>
    (pseudorng_ReadBits re bitCount rw = (Returns (Inr b), rw1) \<longrightarrow>
       collect_loop (Suc (Suc f)) (\<lambda>w. Some (pseudorng_ReadBits re bitCount w)) sc kc tr0 rw
         = Some (Returns ErrCanceled,
                 tr0 @ [ReadStart, ReadEnd None, OnBatch b, CancelRequested], rw1)) \<and>
    (truerng_ReadBits rfuel se bitCount sw = Some (Returns (Inr b), sw1) \<longrightarrow>
       collect_loop (Suc (Suc f)) (truerng_ReadBits rfuel se bitCount) sc kc tr0 sw
         = Some (Returns ErrCanceled,
                 tr0 @ [ReadStart, ReadEnd None, OnBatch b, CancelRequested], sw1)) \<and>
    (receiver sc kc \<and> 0 \<le> numBytes \<and>
     ReadRandom rfuel ue s (replicate (nat numBytes) 0) uw = Some (Returns (n, err, buf), uw1)
       \<longrightarrow> (\<exists>d. bb_collect_loop (Suc (Suc f)) rfuel ue sc s bits numBytes kc tr1 uw
                  = Some (Returns (),
                          tr1 @ [ReadStart, ReadEnd err,
                                 Sent \<lparr>Timestamp = stamp sc kc, BitsRequested = bits,
                                       Data = d, Err = err\<rparr>,
                                 CancelRequested], uw1)))"
proof -
  have cf: "cancel_free []" by (simp add: cancel_free_simps)
  have q0: "quiet_after_cancel []" using cf by (rule cancel_free_quiet)
  have a: "quiet_after_cancel tr"
    if "pseudorng_CollectBitsAtInterval fuel re sc bitCount interval nil rw = Some (r, tr, rw')"
  proof (cases "bitCount \<le> 0 \<or> interval \<le> 0 \<or> nil")
    case True
    then have "tr = []" using that
      by (auto simp: pseudorng_CollectBitsAtInterval_def split: if_splits)
    then show ?thesis using q0 by simp
  next
    case False
    then have "collect_loop fuel (\<lambda>w. Some (pseudorng_ReadBits re bitCount w)) sc 0 [] rw
                 = Some (r, tr, rw')"
      using that by (simp add: pseudorng_CollectBitsAtInterval_def)
    from collect_loop_quiet [OF c this _ cf] show ?thesis by simp
  qed
  have b: "quiet_after_cancel tr2"
    if "truerng_CollectBitsAtInterval fuel rfuel se sc bitCount interval nil sw = Some (r2, tr2, sw')"
  proof (cases "bitCount \<le> 0 \<or> interval \<le> 0 \<or> nil")
    case True
    then have "tr2 = []" using that
      by (auto simp: truerng_CollectBitsAtInterval_def split: if_splits)
    then show ?thesis using q0 by simp
  next
    case False
    then have "collect_loop fuel (truerng_ReadBits rfuel se bitCount) sc 0 [] sw
                 = Some (r2, tr2, sw')"
      using that by (simp add: truerng_CollectBitsAtInterval_def)
    from collect_loop_quiet [OF c this _ cf] show ?thesis by simp
  qed
  have d: "quiet_after_cancel tr3"
    if "StartBitCollector fuel rfuel ue sc bits interval bitrate latencyMs uw = Some (r3, tr3, uw')"
    using c that by (rule StartBitCollector_quiet)
  have e1: "collect_loop (Suc (Suc f)) (\<lambda>w. Some (pseudorng_ReadBits re bitCount w)) sc kc tr0 rw
         = Some (Returns ErrCanceled,
                 tr0 @ [ReadStart, ReadEnd None, OnBatch b, CancelRequested], rw1)"
    if "pseudorng_ReadBits re bitCount rw = (Returns (Inr b), rw1)"
    using that by (intro collect_wait_step [OF c]) simp
  have e2: "collect_loop (Suc (Suc f)) (truerng_ReadBits rfuel se bitCount) sc kc tr0 sw
         = Some (Returns ErrCanceled,
                 tr0 @ [ReadStart, ReadEnd None, OnBatch b, CancelRequested], sw1)"
    if "truerng_ReadBits rfuel se bitCount sw = Some (Returns (Inr b), sw1)"
    using that by (intro collect_wait_step [OF c])
  have e3: "\<exists>d. bb_collect_loop (Suc (Suc f)) rfuel ue sc s bits numBytes kc tr1 uw
                  = Some (Returns (),
                          tr1 @ [ReadStart, ReadEnd err,
                                 Sent \<lparr>Timestamp = stamp sc kc, BitsRequested = bits,
                                       Data = d, Err = err\<rparr>,
                                 CancelRequested], uw1)"
    if "receiver sc kc" "0 \<le> numBytes"
       "ReadRandom rfuel ue s (replicate (nat numBytes) 0) uw = Some (Returns (n, err, buf), uw1)"
    using that by (intro bb_wait_step [OF c])
  show ?thesis
    apply (intro conjI impI)
    subgoal by (rule a)
    subgoal by (rule b)
    subgoal by (rule d)
    subgoal by (rule e1)
    subgoal by (rule e2)
    subgoal by (rule e3) simp_all
    done
qed

lemma pseudorng_cancel_run:
  "pseudorng_CollectBitsAtInterval 5 (mock_rand [0xFF]) (cancel_in_wait 1 True) 8 1000 False
       rand_world0
     = Some (Returns ErrCanceled,
             [ReadStart, ReadEnd None, OnBatch [0xFF], ReadStart, ReadEnd None, OnBatch [0xFF],
              CancelRequested],
             \<lparr>rtrace = [CrandRead 1, CrandRead 1], n_crand = 2\<rparr>)"
  by (simp add: pseudorng_CollectBitsAtInterval_def numeral_eq_Suc pseudorng_ReadBits_def
      crand_Read_def mock_rand_def cancel_in_wait_def rand_world0_def note_cancel_def
      cancelled_by_def int64_small sdiv_pos smod_pos Let_def)

theorem cancel_during_wait_witness:
  "cancel_at (cancel_in_wait 1 True) = Some (1, InWait) \<and>
   pseudorng_CollectBitsAtInterval 5 (mock_rand [0xFF]) (cancel_in_wait 1 True) 8 1000 False
       rand_world0
     = Some (Returns ErrCanceled,
             [ReadStart, ReadEnd None, OnBatch [0xFF], ReadStart, ReadEnd None, OnBatch [0xFF],
              CancelRequested],
             \<lparr>rtrace = [CrandRead 1, CrandRead 1], n_crand = 2\<rparr>) \<and>
   quiet_after_cancel
     [ReadStart, ReadEnd None, OnBatch [0xFF], ReadStart, ReadEnd None, OnBatch [0xFF],
      CancelRequested]"
proof -
  have c: "cancel_at (cancel_in_wait 1 True) = Some (1, InWait)"
    by (simp add: cancel_in_wait_def)
  from cancel_during_wait [OF c, THEN conjunct1, rule_format, OF pseudorng_cancel_run]
  show ?thesis using c pseudorng_cancel_run by simp
qed

end
